theory Spec2Isabelle
  imports Complex_Main "HOL-Library.Char_ord" "HOL-Library.List_Lexorder" "HOL-Library.AList"
begin

section \<open>Python strings\<close>

text \<open>
  Strings are lists of characters. Only the operations that \<^verbatim>\<open>add_voice_example.py\<close>
  applies to file names are modelled, each for the arguments the script passes
  (one-character separators, literal suffixes).  \<^verbatim>\<open>str.lower\<close> maps the Latin
  capitals to small letters and leaves every other character alone.
\<close>

definition lower_char :: "char \<Rightarrow> char" where
  "lower_char c =
     (let n = (of_char c :: nat) in if 65 \<le> n \<and> n \<le> 90 then char_of (n + 32) else c)"

definition str_lower :: "string \<Rightarrow> string" where
  "str_lower s = map lower_char s"

text \<open>\<^verbatim>\<open>s.endswith(suffix)\<close>, and the form taking a tuple of suffixes.\<close>

definition str_endswith :: "string \<Rightarrow> string \<Rightarrow> bool" where
  "str_endswith s suffix =
     (length suffix \<le> length s \<and> drop (length s - length suffix) s = suffix)"

definition str_endswith_any :: "string \<Rightarrow> string list \<Rightarrow> bool" where
  "str_endswith_any s suffixes = list_ex (str_endswith s) suffixes"

text \<open>\<^verbatim>\<open>sub in s\<close>: \<open>sub\<close> occurs in \<open>s\<close> as a contiguous run.\<close>

fun str_contains :: "string \<Rightarrow> string \<Rightarrow> bool" where
  "str_contains sub [] = (sub = [])"
| "str_contains sub (c # cs) = (take (length sub) (c # cs) = sub \<or> str_contains sub cs)"

text \<open>
  \<^verbatim>\<open>s.split(sep)\<close> for a one-character separator: the pieces between the
  occurrences of \<open>sep\<close>, empty pieces included; the result always has at least one piece
  (the first branch of the \<open>case\<close> is never taken).
\<close>

fun str_split :: "char \<Rightarrow> string \<Rightarrow> string list" where
  "str_split sep [] = [[]]"
| "str_split sep (c # cs) =
     (if c = sep then [] # str_split sep cs
      else (case str_split sep cs of
              [] \<Rightarrow> [[c]]
            | piece # pieces \<Rightarrow> (c # piece) # pieces))"

text \<open>\<^verbatim>\<open>s.rfind(c)\<close>: the index of the last occurrence of \<open>c\<close>, or \<open>-1\<close>.\<close>

definition str_rfind :: "string \<Rightarrow> char \<Rightarrow> int" where
  "str_rfind s c =
     (if c \<in> set s then int (length s - 1 - length (takeWhile (\<lambda>x. x \<noteq> c) (rev s))) else - 1)"

section \<open>Paths\<close>

text \<open>
  \<^verbatim>\<open>os.path.splitext\<close> on a POSIX system.  The extension starts at the last dot behind
  the last slash, unless only dots stand between the slash and that dot; the loop of the
  library looks for a character other than a dot from \<open>filenameIndex\<close> up to \<open>dotIndex\<close>.
\<close>

function has_non_dot :: "string \<Rightarrow> nat \<Rightarrow> nat \<Rightarrow> bool" where
  "has_non_dot p filenameIndex dotIndex =
     (if filenameIndex < dotIndex
      then (if p ! filenameIndex \<noteq> CHR ''.'' then True
            else has_non_dot p (filenameIndex + 1) dotIndex)
      else False)"
  by pat_completeness auto
termination
  by (relation "measure (\<lambda>(p, filenameIndex, dotIndex). dotIndex - filenameIndex)") auto

definition splitext :: "string \<Rightarrow> string \<times> string" where
  "splitext p =
     (let sepIndex = str_rfind p CHR ''/'';
          dotIndex = str_rfind p CHR ''.''
      in if dotIndex > sepIndex \<and> has_non_dot p (nat (sepIndex + 1)) (nat dotIndex)
         then (take (nat dotIndex) p, drop (nat dotIndex) p)
         else (p, []))"

text \<open>
  \<^verbatim>\<open>os.path.join(a, b)\<close> for two arguments: an absolute \<open>b\<close> discards \<open>a\<close>; otherwise
  \<open>b\<close> is appended, after a slash unless \<open>a\<close> is empty or already ends in one.
\<close>

definition os_path_join :: "string \<Rightarrow> string \<Rightarrow> string" where
  "os_path_join a b =
     (if take 1 b = ''/'' then b
      else if a = [] \<or> last a = CHR ''/'' then a @ b
      else a @ ''/'' @ b)"

section \<open>The voice lister: one file name\<close>

text \<open>The dictionary that \<^verbatim>\<open>list_available_voices\<close> builds for each voice file.\<close>

record voice_info =
  "file" :: string
  speaker_name :: string
  has_bgm :: bool
  size_kb :: nat

definition audio_extensions :: "string list" where
  "audio_extensions = [''.wav'', ''.mp3'', ''.flac'', ''.ogg'', ''.m4a'', ''.aac'']"

text \<open>The filter of the list comprehension (line 110).\<close>

definition is_voice_file :: "string \<Rightarrow> bool" where
  "is_voice_file f = str_endswith_any (str_lower f) audio_extensions"

text \<open>
  Lines 121 to 125: the speaker name from the base name.  \<^verbatim>\<open>split\<close> never returns an
  empty list, so the indices \<open>[0]\<close> and \<open>[-1]\<close> are its head and its last piece.
\<close>

definition extract_speaker_name :: "string \<Rightarrow> string" where
  "extract_speaker_name name =
     (let speaker = (if CHR ''_'' \<in> set name then hd (str_split CHR ''_'' name) else name)
      in if CHR ''-'' \<in> set speaker then last (str_split CHR ''-'' speaker) else speaker)"

text \<open>The body of the loop over the file names (lines 118 to 139), given the file's size.\<close>

definition voice_entry :: "string \<Rightarrow> nat \<Rightarrow> voice_info" where
  "voice_entry voice_file file_size =
     (let name = fst (splitext voice_file)
      in \<lparr> file = voice_file,
           speaker_name = extract_speaker_name name,
           has_bgm = str_contains ''bgm'' (str_lower name),
           size_kb = file_size div 1024 \<rparr>)"


section \<open>Errors and console output\<close>

text \<open>
  The exceptions the modelled calls raise.  \<open>AudioReadError\<close> stands for whatever
  \<^verbatim>\<open>librosa.load\<close> raises on a path it cannot read or decode, \<open>LibsndfileError\<close> for the
  error of \<^verbatim>\<open>soundfile.write\<close> when the output file cannot be opened.  All of them are
  subclasses of \<^verbatim>\<open>Exception\<close>.
\<close>

datatype error =
    FileNotFoundError
  | NotADirectoryError
  | FileExistsError
  | ZeroDivisionError
  | ValueError
  | AudioReadError
  | TrimError
  | LibsndfileError

text \<open>One constructor per \<^verbatim>\<open>print\<close> statement of the script, with the values it formats.\<close>

datatype message =
    ProcessingAudio string
  | VoiceAdded string
  | SpeakerNameForScripts string
  | VoiceWithBgmCreated string
  | VoicesDirNotFound string
  | AvailableVoices nat
  | Rule
  | VoiceRow string string nat bool
  | ValidationOf string
  | Duration real
  | SampleRate nat
  | Channels string
  | WarnVeryShort
  | WarnVeryLong
  | DurationLooksGood
  | WillBeResampled nat
  | SampleRateOptimal
  | ErrorMessage error

section \<open>The file system\<close>

text \<open>
  A directory tree.  A file has a size in bytes and, when \<^verbatim>\<open>soundfile.write\<close> made it, the
  signal and the sample rate that were written.  A directory lists its entries in the order
  \<^verbatim>\<open>os.listdir\<close> reports them.
\<close>

datatype sample = Finite real | PosInf | NegInf | NaN

datatype node =
    File nat "(sample list \<times> nat) option"
  | Dir "(string \<times> node) list"

record world =
  fs_root :: node
  cwd :: "string list"
  stdout :: "message list"

definition print_line :: "message \<Rightarrow> world \<Rightarrow> world" where
  "print_line m w = w\<lparr>stdout := stdout w @ [m]\<rparr>"

text \<open>
  A path names the components between its slashes; empty components and \<open>.\<close> are skipped,
  as path resolution does, and so is a slash at the end.  A relative path starts at the
  working directory.  Neither \<open>..\<close> nor symbolic links are resolved: the model is meant for
  paths without them.
\<close>

definition path_components :: "string \<Rightarrow> string list" where
  "path_components p = filter (\<lambda>c. c \<noteq> [] \<and> c \<noteq> ''.'') (str_split CHR ''/'' p)"

definition resolve :: "world \<Rightarrow> string \<Rightarrow> string list" where
  "resolve w p =
     (if take 1 p = ''/'' then path_components p else cwd w @ path_components p)"

fun lookup :: "node \<Rightarrow> string list \<Rightarrow> node option" where
  "lookup n [] = Some n"
| "lookup (File sz a) (c # cs) = None"
| "lookup (Dir es) (c # cs) =
     (case map_of es c of None \<Rightarrow> None | Some n \<Rightarrow> lookup n cs)"

text \<open>The node a path leads to; the empty path leads nowhere.\<close>

definition node_at :: "world \<Rightarrow> string \<Rightarrow> node option" where
  "node_at w p = (if p = [] then None else lookup (fs_root w) (resolve w p))"

definition os_path_exists :: "world \<Rightarrow> string \<Rightarrow> bool" where
  "os_path_exists w p = (node_at w p \<noteq> None)"

fun is_dir_node :: "node option \<Rightarrow> bool" where
  "is_dir_node (Some (Dir es)) = True"
| "is_dir_node (Some (File sz a)) = False"
| "is_dir_node None = False"

definition is_dir :: "world \<Rightarrow> string \<Rightarrow> bool" where
  "is_dir w p = is_dir_node (node_at w p)"

definition os_listdir :: "world \<Rightarrow> string \<Rightarrow> error + string list" where
  "os_listdir w p =
     (case node_at w p of
        None \<Rightarrow> Inl FileNotFoundError
      | Some (File sz a) \<Rightarrow> Inl NotADirectoryError
      | Some (Dir es) \<Rightarrow> Inr (map fst es))"

text \<open>The size \<^verbatim>\<open>stat\<close> reports for a directory; nothing below depends on the number.\<close>

definition dir_st_size :: nat where
  "dir_st_size = 4096"

text \<open>
  A name that an entry of a real directory can have: not empty, neither \<open>.\<close> nor \<open>..\<close>, and
  without a slash.  The entries of the directory at a path (none when the path names no
  directory), and the size of one entry.
\<close>

definition valid_name :: "string \<Rightarrow> bool" where
  "valid_name n = (n \<noteq> [] \<and> n \<noteq> ''.'' \<and> n \<noteq> ''..'' \<and> CHR ''/'' \<notin> set n)"

definition dir_entries :: "world \<Rightarrow> string \<Rightarrow> (string \<times> node) list" where
  "dir_entries w p = (case node_at w p of Some (Dir es) \<Rightarrow> es | _ \<Rightarrow> [])"

definition entry_size :: "(string \<times> node) list \<Rightarrow> string \<Rightarrow> nat" where
  "entry_size es n =
     (case map_of es n of
        Some (File sz a) \<Rightarrow> sz
      | Some (Dir sub) \<Rightarrow> dir_st_size
      | None \<Rightarrow> 0)"

definition os_path_getsize :: "world \<Rightarrow> string \<Rightarrow> error + nat" where
  "os_path_getsize w p =
     (case node_at w p of
        None \<Rightarrow> Inl FileNotFoundError
      | Some (File sz a) \<Rightarrow> Inr sz
      | Some (Dir es) \<Rightarrow> Inr dir_st_size)"

text \<open>
  \<^verbatim>\<open>os.makedirs(p, exist_ok=True)\<close>: every missing directory along the path is created; a
  file in the way is an error, an existing directory is not.
\<close>

fun mkdirs :: "node \<Rightarrow> string list \<Rightarrow> error + node" where
  "mkdirs (File sz a) [] = Inl FileExistsError"
| "mkdirs (Dir es) [] = Inr (Dir es)"
| "mkdirs (File sz a) (c # cs) = Inl NotADirectoryError"
| "mkdirs (Dir es) (c # cs) =
     (case mkdirs (case map_of es c of None \<Rightarrow> Dir [] | Some n \<Rightarrow> n) cs of
        Inl e \<Rightarrow> Inl e
      | Inr n' \<Rightarrow> Inr (Dir (AList.update c n' es)))"

definition os_makedirs :: "world \<Rightarrow> string \<Rightarrow> error + world" where
  "os_makedirs w p =
     (if p = [] then Inl FileNotFoundError
      else case mkdirs (fs_root w) (resolve w p) of
             Inl e \<Rightarrow> Inl e
           | Inr r \<Rightarrow> Inr (w\<lparr>fs_root := r\<rparr>))"

text \<open>
  Opening a file for writing: the directory that is to hold it must exist, and the path must
  not name a directory.  A file already there is replaced.
\<close>

fun put_file :: "node \<Rightarrow> string list \<Rightarrow> node \<Rightarrow> error + node" where
  "put_file n [] f = Inl LibsndfileError"
| "put_file (File sz a) (c # cs) f = Inl LibsndfileError"
| "put_file (Dir es) [c] f =
     (case map_of es c of
        Some (Dir sub) \<Rightarrow> Inl LibsndfileError
      | _ \<Rightarrow> Inr (Dir (AList.update c f es)))"
| "put_file (Dir es) (c # c' # cs) f =
     (case map_of es c of
        None \<Rightarrow> Inl LibsndfileError
      | Some n \<Rightarrow>
          (case put_file n (c' # cs) f of
             Inl e \<Rightarrow> Inl e
           | Inr n' \<Rightarrow> Inr (Dir (AList.update c n' es))))"

text \<open>
  \<^verbatim>\<open>soundfile.write(path, data, samplerate)\<close> for a \<open>.wav\<close> path: 16-bit PCM, a header of
  44 bytes and two bytes for each sample.
\<close>

definition wav_bytes :: "nat \<Rightarrow> nat" where
  "wav_bytes n = 44 + 2 * n"

definition sf_write :: "world \<Rightarrow> string \<Rightarrow> sample list \<Rightarrow> nat \<Rightarrow> error + world" where
  "sf_write w p data samplerate =
     (if p = [] then Inl LibsndfileError
      else case put_file (fs_root w) (resolve w p)
                  (File (wav_bytes (length data)) (Some (data, samplerate))) of
             Inl e \<Rightarrow> Inl e
           | Inr r \<Rightarrow> Inr (w\<lparr>fs_root := r\<rparr>))"

text \<open>
  When a path can be opened for writing: it is not empty, the directory above it exists, and
  it does not name a directory itself.
\<close>

definition writable :: "world \<Rightarrow> string \<Rightarrow> bool" where
  "writable w p =
     (p \<noteq> [] \<and> resolve w p \<noteq> [] \<and>
      is_dir_node (lookup (fs_root w) (butlast (resolve w p))) \<and>
      \<not> is_dir_node (lookup (fs_root w) (resolve w p)))"

text \<open>The signal a path holds, when \<^verbatim>\<open>soundfile.write\<close> put one there.\<close>

definition written_signal :: "world \<Rightarrow> string \<Rightarrow> (sample list \<times> nat) option" where
  "written_signal w p = (case node_at w p of Some (File sz (Some a)) \<Rightarrow> Some a | _ \<Rightarrow> None)"

section \<open>Arrays and the audio library\<close>

text \<open>
  Samples are real numbers: the arithmetic of the script is modelled exactly, without the
  rounding of 32-bit floats.  Only a division by zero leaves the reals; numpy then yields an
  infinity or a NaN and goes on, which \<open>sample\<close> records.
\<close>

datatype ndarray = Array1 "real list" | Array2 "real list list"

fun ndim :: "ndarray \<Rightarrow> nat" where
  "ndim (Array1 xs) = 1"
| "ndim (Array2 rows) = 2"

fun len :: "ndarray \<Rightarrow> nat" where
  "len (Array1 xs) = length xs"
| "len (Array2 rows) = length rows"

text \<open>
  What decoding a file gives: the frames as \<^verbatim>\<open>soundfile\<close> reads them (a flat array for one
  channel, otherwise one row of channel values per frame) and the file's own sample rate.
\<close>

record audio_file =
  frames :: ndarray
  sr_native :: nat

text \<open>
  The parts of the audio stack that are not code of this script: \<open>decode\<close> reads the file
  at a path or fails, \<open>resample\<close> is \<^verbatim>\<open>librosa.resample(y, orig_sr, target_sr)\<close> on one
  channel, and \<open>effects_trim\<close> is \<^verbatim>\<open>librosa.effects.trim(y, top_db=20)[0]\<close>.
\<close>

record audio_lib =
  decode :: "string \<Rightarrow> error + audio_file"
  resample :: "real list \<Rightarrow> nat \<Rightarrow> nat \<Rightarrow> real list"
  effects_trim :: "real list \<Rightarrow> error + real list"

text \<open>\<^verbatim>\<open>y.T\<close>: channels first.\<close>

fun array_T :: "ndarray \<Rightarrow> ndarray" where
  "array_T (Array1 xs) = Array1 xs"
| "array_T (Array2 rows) = Array2 (transpose rows)"

text \<open>\<^verbatim>\<open>librosa.to_mono\<close>: the mean over the channels, frame by frame.\<close>

fun to_mono :: "ndarray \<Rightarrow> ndarray" where
  "to_mono (Array1 xs) = Array1 xs"
| "to_mono (Array2 rows) =
     Array1 (map (\<lambda>frame. sum_list frame / real (length frame)) (transpose rows))"

fun resample_array :: "audio_lib \<Rightarrow> ndarray \<Rightarrow> nat \<Rightarrow> nat \<Rightarrow> ndarray" where
  "resample_array lib (Array1 xs) orig_sr target_sr = Array1 (resample lib xs orig_sr target_sr)"
| "resample_array lib (Array2 rows) orig_sr target_sr =
     Array2 (map (\<lambda>row. resample lib row orig_sr target_sr) rows)"

text \<open>
  \<^verbatim>\<open>librosa.load(path, sr=sr, mono=mono)\<close>; \<open>sr = None\<close> keeps the file's rate.  The
  keyword \<open>mono\<close> (here \<open>mono_arg\<close>) defaults to \<open>True\<close> in librosa's signature.
\<close>

definition librosa_load ::
  "audio_lib \<Rightarrow> string \<Rightarrow> nat option \<Rightarrow> bool \<Rightarrow> error + (ndarray \<times> nat)" where
  "librosa_load lib path sr mono_arg =
     (case decode lib path of
        Inl e \<Rightarrow> Inl e
      | Inr f \<Rightarrow>
          (let y = array_T (frames f);
               y = (if mono_arg then to_mono y else y)
           in case sr of
                None \<Rightarrow> Inr (y, sr_native f)
              | Some target_sr \<Rightarrow> Inr (resample_array lib y (sr_native f) target_sr, target_sr)))"

text \<open>
  The samples of an array.  With \<open>mono = True\<close> the loaded array is one-dimensional, and this
  only unwraps it.
\<close>

fun flat :: "ndarray \<Rightarrow> real list" where
  "flat (Array1 xs) = xs"
| "flat (Array2 rows) = concat rows"

text \<open>\<^verbatim>\<open>np.max\<close> of a one-dimensional array; an empty array has no maximum.\<close>

fun np_max :: "real list \<Rightarrow> error + real" where
  "np_max [] = Inl ValueError"
| "np_max (x # xs) = Inr (fold max xs x)"

text \<open>Division and multiplication of a sample by a scalar, as numpy computes them.\<close>

definition np_divide :: "real \<Rightarrow> real \<Rightarrow> sample" where
  "np_divide x d =
     (if d \<noteq> 0 then Finite (x / d)
      else if x = 0 then NaN
      else if x > 0 then PosInf else NegInf)"

fun np_multiply :: "sample \<Rightarrow> real \<Rightarrow> sample" where
  "np_multiply (Finite x) k = Finite (x * k)"
| "np_multiply NaN k = NaN"
| "np_multiply PosInf k = (if k > 0 then PosInf else if k < 0 then NegInf else NaN)"
| "np_multiply NegInf k = (if k > 0 then NegInf else if k < 0 then PosInf else NaN)"

text \<open>
  \<^verbatim>\<open>a / np.max(np.abs(a)) * 0.95\<close> (lines 47 and 92).  The divisor is not tested: only the
  maximum of an empty array raises.
\<close>

definition peak_normalize :: "real list \<Rightarrow> error + sample list" where
  "peak_normalize a =
     (case np_max (map abs a) of
        Inl e \<Rightarrow> Inl e
      | Inr peak \<Rightarrow> Inr (map (\<lambda>x. np_multiply (np_divide x peak) (95 / 100)) a))"

text \<open>\<^verbatim>\<open>np.tile(a, reps)\<close> of a one-dimensional array.\<close>

definition np_tile :: "real list \<Rightarrow> nat \<Rightarrow> real list" where
  "np_tile a reps = concat (replicate reps a)"

text \<open>
  \<^verbatim>\<open>a + b\<close> on one-dimensional arrays: element by element; an array of length one is
  broadcast; other shapes do not fit.
\<close>

definition np_add :: "real list \<Rightarrow> real list \<Rightarrow> error + real list" where
  "np_add a b =
     (if length a = length b then Inr (map2 (+) a b)
      else if length b = 1 then Inr (map (\<lambda>x. x + hd b) a)
      else if length a = 1 then Inr (map (\<lambda>y. hd a + y) b)
      else Inl ValueError)"

section \<open>The voice importer\<close>

text \<open>
  Every operation takes the state of the world and returns the new state with either the
  exception raised or the value returned.  The parameter \<open>speaker\<close> is the script's
  \<^verbatim>\<open>speaker_name\<close>.
\<close>

text \<open>Line 35: the file name of a voice, by the convention.\<close>

definition voice_filename :: "string \<Rightarrow> string \<Rightarrow> string \<Rightarrow> string" where
  "voice_filename language_code speaker gender =
     language_code @ ''-'' @ speaker @ ''_'' @ gender @ ''.wav''"

definition add_voice_to_vibevoice ::
  "audio_lib \<Rightarrow> string \<Rightarrow> string \<Rightarrow> string \<Rightarrow> string \<Rightarrow> string \<Rightarrow> world
     \<Rightarrow> world \<times> (error + string)" where
  "add_voice_to_vibevoice lib source_audio_path speaker language_code gender voices_dir w =
     (case os_makedirs w voices_dir of
        Inl e \<Rightarrow> (w, Inl e)
      | Inr w1 \<Rightarrow>
          (let filename = voice_filename language_code speaker gender;
               target_path = os_path_join voices_dir filename;
               w2 = print_line (ProcessingAudio source_audio_path) w1
           in case librosa_load lib source_audio_path (Some 24000) True of
                Inl e \<Rightarrow> (w2, Inl e)
              | Inr (y, sr) \<Rightarrow>
                  (case effects_trim lib (flat y) of
                     Inl e \<Rightarrow> (w2, Inl e)
                   | Inr audio \<Rightarrow>
                       (case peak_normalize audio of
                          Inl e \<Rightarrow> (w2, Inl e)
                        | Inr normalized \<Rightarrow>
                            (case sf_write w2 target_path normalized 24000 of
                               Inl e \<Rightarrow> (w2, Inl e)
                             | Inr w3 \<Rightarrow>
                                 (print_line (SpeakerNameForScripts speaker)
                                    (print_line (VoiceAdded target_path) w3),
                                  Inr target_path))))))"

section \<open>The background music mixer\<close>

text \<open>
  Lines 81 to 86.  \<^verbatim>\<open>len(voice) / len(music)\<close> divides two Python integers, so an empty
  music track raises \<^verbatim>\<open>ZeroDivisionError\<close>.  The quotient is taken exactly; the float the
  script computes has the same ceiling for every length below \<open>2^53\<close>.
\<close>

definition match_lengths :: "real list \<Rightarrow> real list \<Rightarrow> error + real list" where
  "match_lengths voice music =
     (if length music > length voice then Inr (take (length voice) music)
      else if length music = 0 then Inl ZeroDivisionError
      else (let repeats = nat \<lceil>real (length voice) / real (length music)\<rceil>
            in Inr (take (length voice) (np_tile music repeats))))"

text \<open>Line 89, after the lengths are matched.\<close>

definition mix :: "real list \<Rightarrow> real list \<Rightarrow> real \<Rightarrow> error + real list" where
  "mix voice music music_volume = np_add voice (map (\<lambda>m. m * music_volume) music)"

text \<open>Line 95: the file name of a voice with background music.\<close>

definition bgm_filename :: "string \<Rightarrow> string \<Rightarrow> string" where
  "bgm_filename language_code speaker = language_code @ ''-'' @ speaker @ ''_bgm.wav''"

definition create_voice_with_background_music ::
  "audio_lib \<Rightarrow> string \<Rightarrow> string \<Rightarrow> string \<Rightarrow> string \<Rightarrow> string \<Rightarrow> real \<Rightarrow> world
     \<Rightarrow> world \<times> (error + string)" where
  "create_voice_with_background_music lib voice_path music_path speaker language_code
       voices_dir music_volume w =
     (case librosa_load lib voice_path (Some 24000) True of
        Inl e \<Rightarrow> (w, Inl e)
      | Inr (v, sr) \<Rightarrow>
          (case librosa_load lib music_path (Some 24000) True of
             Inl e \<Rightarrow> (w, Inl e)
           | Inr (m, sr') \<Rightarrow>
               (case match_lengths (flat v) (flat m) of
                  Inl e \<Rightarrow> (w, Inl e)
                | Inr music \<Rightarrow>
                    (case mix (flat v) music music_volume of
                       Inl e \<Rightarrow> (w, Inl e)
                     | Inr mixed \<Rightarrow>
                         (case peak_normalize mixed of
                            Inl e \<Rightarrow> (w, Inl e)
                          | Inr normalized \<Rightarrow>
                              (let filename = bgm_filename language_code speaker;
                                   target_path = os_path_join voices_dir filename
                               in case sf_write w target_path normalized 24000 of
                                    Inl e \<Rightarrow> (w, Inl e)
                                  | Inr w1 \<Rightarrow>
                                      (print_line (VoiceWithBgmCreated target_path) w1,
                                       Inr target_path)))))))"

section \<open>The voice lister\<close>

text \<open>The loop of lines 116 to 142 over the sorted file names.\<close>

fun voices_loop ::
  "string \<Rightarrow> string list \<Rightarrow> voice_info list \<Rightarrow> world \<Rightarrow> world \<times> (error + voice_info list)"
where
  "voices_loop voices_dir [] voices_info w = (w, Inr voices_info)"
| "voices_loop voices_dir (voice_file # rest) voices_info w =
     (case os_path_getsize w (os_path_join voices_dir voice_file) of
        Inl e \<Rightarrow> (w, Inl e)
      | Inr file_size \<Rightarrow>
          (let info = voice_entry voice_file file_size
           in voices_loop voices_dir rest (voices_info @ [info])
                (print_line
                   (VoiceRow (speaker_name info) voice_file (file_size div 1024) (has_bgm info))
                   w)))"

definition list_available_voices :: "string \<Rightarrow> world \<Rightarrow> world \<times> (error + voice_info list)" where
  "list_available_voices voices_dir w =
     (if \<not> os_path_exists w voices_dir
      then (print_line (VoicesDirNotFound voices_dir) w, Inr [])
      else case os_listdir w voices_dir of
             Inl e \<Rightarrow> (w, Inl e)
           | Inr entries \<Rightarrow>
               (let voice_files = filter is_voice_file entries;
                    w1 = print_line Rule (print_line (AvailableVoices (length voice_files)) w)
                in voices_loop voices_dir (sort voice_files) [] w1))"

section \<open>The validator\<close>

text \<open>
  The body of the \<^verbatim>\<open>try\<close> block (lines 150 to 171).  The call of line 150 passes no
  \<open>mono\<close>, so librosa's default applies.  The division of line 151 precedes every
  \<^verbatim>\<open>print\<close>.
\<close>

definition validate_body :: "audio_lib \<Rightarrow> string \<Rightarrow> world \<Rightarrow> world \<times> (error + bool)" where
  "validate_body lib audio_path w =
     (case librosa_load lib audio_path None True of
        Inl e \<Rightarrow> (w, Inl e)
      | Inr (audio, sr) \<Rightarrow>
          if sr = 0 then (w, Inl ZeroDivisionError)
          else
            (let duration = real (len audio) / real sr;
                 w1 = print_line (ValidationOf audio_path) w;
                 w2 = print_line (Duration duration) w1;
                 w3 = print_line (SampleRate sr) w2;
                 w4 = print_line (Channels (if ndim audio = 1 then ''Mono'' else ''Stereo'')) w3;
                 w5 = print_line
                        (if duration < 2 then WarnVeryShort
                         else if duration > 30 then WarnVeryLong
                         else DurationLooksGood) w4;
                 w6 = print_line
                        (if sr \<noteq> 24000 then WillBeResampled sr else SampleRateOptimal) w5
             in (w6, Inr True)))"

text \<open>The \<^verbatim>\<open>except Exception\<close> clause (lines 173 to 175) around it.\<close>

definition validate_voice_file :: "audio_lib \<Rightarrow> string \<Rightarrow> world \<Rightarrow> world \<times> (error + bool)" where
  "validate_voice_file lib audio_path w =
     (case validate_body lib audio_path w of
        (w', Inl e) \<Rightarrow> (print_line (ErrorMessage e) w', Inr False)
      | (w', Inr b) \<Rightarrow> (w', Inr b))"

section \<open>Sample inputs\<close>

text \<open>
  A few audio files and a directory tree, for running the operations on concrete inputs.  All
  signals that the importer and the mixer load from it are at 24000 Hz, where resampling
  changes nothing, and none has silence to trim at its ends.  The header of
  \<open>zero_rate.wav\<close> gives the sample rate 0.
\<close>

definition example_lib :: audio_lib where
  "example_lib =
     \<lparr> decode = (\<lambda>p.
         if p = ''voice.wav'' then Inr \<lparr>frames = Array1 [1/2, - 1, 1/4, 0, 1/2], sr_native = 24000\<rparr>
         else if p = ''music.wav'' then Inr \<lparr>frames = Array1 [1/5, - 1/5], sr_native = 24000\<rparr>
         else if p = ''empty.wav'' then Inr \<lparr>frames = Array1 [], sr_native = 24000\<rparr>
         else if p = ''silence.wav'' then Inr \<lparr>frames = Array1 [0, 0, 0], sr_native = 24000\<rparr>
         else if p = ''zero_rate.wav'' then Inr \<lparr>frames = Array1 [1/2, - 1/2], sr_native = 0\<rparr>
         else if p = ''stereo.wav''
           then Inr \<lparr>frames = Array2 [[1, 0], [0, 1], [1/2, 1/2]], sr_native = 44100\<rparr>
         else if p = ''short16k.wav''
           then Inr \<lparr>frames = Array1 (replicate 16000 0), sr_native = 16000\<rparr>
         else Inl AudioReadError),
       resample = (\<lambda>xs orig_sr target_sr. xs),
       effects_trim = (\<lambda>xs. Inr xs) \<rparr>"

definition example_world :: world where
  "example_world =
     \<lparr> fs_root =
         Dir [(''work'',
               Dir [(''demo'',
                     Dir [(''voices'',
                           Dir [(''en-Emma_female.wav'', File 96044 None),
                                (''zh-Li_bgm.MP3'', File 2048 None),
                                (''notes.txt'', File 12 None),
                                (''en-Bob_male.wav'', File 1023 None)])])]),
              (''tmp'', Dir [])],
       cwd = [''work''],
       stdout = [] \<rparr>"

text \<open>The same tree with a directory \<open>en-x\<close> among the voices.\<close>

definition example_world_sub :: world where
  "example_world_sub =
     \<lparr> fs_root =
         Dir [(''work'',
               Dir [(''demo'',
                     Dir [(''voices'',
                           Dir [(''en-Emma_female.wav'', File 96044 None),
                                (''zh-Li_bgm.MP3'', File 2048 None),
                                (''notes.txt'', File 12 None),
                                (''en-Bob_male.wav'', File 1023 None),
                                (''en-x'', Dir [])])])]),
              (''tmp'', Dir [])],
       cwd = [''work''],
       stdout = [] \<rparr>"

section \<open>The file name convention as the specification words it\<close>

text \<open>
  ``The substring before the first \<open>_\<close>'' and ``the substring after the last \<open>-\<close>''; each is
  the whole string when the character does not occur.
\<close>

definition substring_before_first :: "char \<Rightarrow> string \<Rightarrow> string" where
  "substring_before_first c s = takeWhile (\<lambda>x. x \<noteq> c) s"

definition substring_after_last :: "char \<Rightarrow> string \<Rightarrow> string" where
  "substring_after_last c s = rev (takeWhile (\<lambda>x. x \<noteq> c) (rev s))"

section \<open>Facts about the string operations\<close>

lemma str_split_not_Nil: "str_split sep s \<noteq> []"
  by (induction s) (auto split: list.splits)

lemma takeWhile_absent: "c \<notin> set s \<Longrightarrow> takeWhile (\<lambda>x. x \<noteq> c) s = s"
  by (induction s) auto

lemma hd_str_split: "hd (str_split sep s) = takeWhile (\<lambda>x. x \<noteq> sep) s"
  by (induction s) (auto split: list.splits simp: str_split_not_Nil)

lemma str_split_no_sep: "sep \<notin> set a \<Longrightarrow> str_split sep a = [a]"
  by (induction a) (auto split: list.splits)

lemma str_split_at_first:
  "sep \<notin> set a \<Longrightarrow> str_split sep (a @ sep # b) = a # str_split sep b"
  by (induction a) (auto split: list.splits)

lemma last_str_split: "last (str_split sep s) = rev (takeWhile (\<lambda>x. x \<noteq> sep) (rev s))"
proof (induction "length s" arbitrary: s rule: less_induct)
  case less
  show ?case
  proof (cases "sep \<in> set s")
    case False
    then show ?thesis by (simp add: str_split_no_sep takeWhile_absent)
  next
    case True
    then obtain a b where s: "s = a @ sep # b" and a: "sep \<notin> set a"
      by (auto dest: split_list_first)
    have "last (str_split sep s) = last (str_split sep b)"
      using a s by (simp add: str_split_at_first str_split_not_Nil)
    also have "\<dots> = rev (takeWhile (\<lambda>x. x \<noteq> sep) (rev b))"
      using less[of b] s by simp
    also have "\<dots> = rev (takeWhile (\<lambda>x. x \<noteq> sep) (rev s))"
      by (simp add: s takeWhile_append)
    finally show ?thesis .
  qed
qed

lemma str_contains_iff: "str_contains sub s \<longleftrightarrow> (\<exists>pre suf. s = pre @ sub @ suf)"
proof (induction s)
  case Nil
  then show ?case by auto
next
  case (Cons c cs)
  have "(\<exists>pre suf. c # cs = pre @ sub @ suf) \<longleftrightarrow>
        (\<exists>suf. c # cs = sub @ suf) \<or> (\<exists>pre suf. cs = pre @ sub @ suf)"
  proof
    assume "\<exists>pre suf. c # cs = pre @ sub @ suf"
    then obtain pre suf where e: "c # cs = pre @ sub @ suf" by blast
    show "(\<exists>suf. c # cs = sub @ suf) \<or> (\<exists>pre suf. cs = pre @ sub @ suf)"
    proof (cases pre)
      case Nil
      with e show ?thesis by auto
    next
      case (Cons p ps)
      with e have "cs = ps @ sub @ suf" by simp
      then show ?thesis by blast
    qed
  next
    assume "(\<exists>suf. c # cs = sub @ suf) \<or> (\<exists>pre suf. cs = pre @ sub @ suf)"
    then show "\<exists>pre suf. c # cs = pre @ sub @ suf"
    proof
      assume "\<exists>suf. c # cs = sub @ suf"
      then obtain suf where "c # cs = [] @ sub @ suf" by auto
      then show ?thesis by blast
    next
      assume "\<exists>pre suf. cs = pre @ sub @ suf"
      then obtain pre suf where "c # cs = (c # pre) @ sub @ suf" by auto
      then show ?thesis by blast
    qed
  qed
  moreover have "(take (length sub) (c # cs) = sub) \<longleftrightarrow> (\<exists>suf. c # cs = sub @ suf)"
    by (metis append_eq_conv_conj append_take_drop_id)
  ultimately show ?case using Cons.IH by simp
qed

lemma extract_speaker_name_eq:
  "extract_speaker_name name =
     substring_after_last CHR ''-'' (substring_before_first CHR ''_'' name)"
proof -
  have b: "(if CHR ''_'' \<in> set name then hd (str_split CHR ''_'' name) else name) =
        substring_before_first CHR ''_'' name"
    by (simp add: hd_str_split substring_before_first_def takeWhile_absent)
  have a: "(if CHR ''-'' \<in> set t then last (str_split CHR ''-'' t) else t) =
        substring_after_last CHR ''-'' t" for t
    by (simp add: last_str_split substring_after_last_def takeWhile_absent)
  show ?thesis
    unfolding extract_speaker_name_def Let_def b a ..
qed

section \<open>The lister's parse of a file name\<close>

text \<open>
  Claim C1.  For every file name with a recognized audio extension, the speaker name of its
  record is the part of the base name before the first \<open>_\<close>, and of that the part after the
  last \<open>-\<close>; the flag \<open>has_bgm\<close> says whether \<open>bgm\<close> occurs in the lower-cased base name.
  The name \<open>en-Emma_female.wav\<close> gives \<open>Emma\<close>, and \<open>en-Emma_bgm.wav\<close> gives \<open>Emma\<close> with
  the flag set.
\<close>

theorem speaker_name_extraction:
  "is_voice_file voice_file \<Longrightarrow>
     speaker_name (voice_entry voice_file file_size) =
       substring_after_last CHR ''-''
         (substring_before_first CHR ''_'' (fst (splitext voice_file))) \<and>
     has_bgm (voice_entry voice_file file_size) =
       (\<exists>pre suf. str_lower (fst (splitext voice_file)) = pre @ ''bgm'' @ suf) \<and>
     speaker_name (voice_entry ''en-Emma_female.wav'' file_size) = ''Emma'' \<and>
     speaker_name (voice_entry ''en-Emma_bgm.wav'' file_size) = ''Emma'' \<and>
     has_bgm (voice_entry ''en-Emma_bgm.wav'' file_size)"
proof -
  have 1: "speaker_name (voice_entry f file_size) =
       substring_after_last CHR ''-'' (substring_before_first CHR ''_'' (fst (splitext f)))" for f
    by (simp add: voice_entry_def Let_def extract_speaker_name_eq)
  have 2: "has_bgm (voice_entry f file_size) =
       (\<exists>pre suf. str_lower (fst (splitext f)) = pre @ ''bgm'' @ suf)" for f
    by (simp add: voice_entry_def Let_def str_contains_iff)
  have s1: "fst (splitext ''en-Emma_female.wav'') = ''en-Emma_female''" by code_simp
  have s2: "fst (splitext ''en-Emma_bgm.wav'') = ''en-Emma_bgm''" by code_simp
  have 3: "speaker_name (voice_entry ''en-Emma_female.wav'' file_size) = ''Emma''"
    unfolding 1 s1 by (simp add: substring_after_last_def substring_before_first_def)
  have 4: "speaker_name (voice_entry ''en-Emma_bgm.wav'' file_size) = ''Emma''"
    unfolding 1 s2 by (simp add: substring_after_last_def substring_before_first_def)
  have 5: "has_bgm (voice_entry ''en-Emma_bgm.wav'' file_size)"
    unfolding voice_entry_def Let_def s2 by (simp add: str_lower_def lower_char_def)
  from 1 2 3 4 5 show ?thesis by blast
qed

theorem speaker_name_extraction_witness:
  "is_voice_file ''fr-Jean-Luc_male_v2.MP3'' \<and>
   speaker_name (voice_entry ''fr-Jean-Luc_male_v2.MP3'' 4096) = ''Luc'' \<and>
   \<not> has_bgm (voice_entry ''fr-Jean-Luc_male_v2.MP3'' 4096)"
proof -
  have v: "is_voice_file ''fr-Jean-Luc_male_v2.MP3''" by code_simp
  have s: "fst (splitext ''fr-Jean-Luc_male_v2.MP3'') = ''fr-Jean-Luc_male_v2''" by code_simp
  have n: "\<not> has_bgm (voice_entry ''fr-Jean-Luc_male_v2.MP3'' 4096)" by code_simp
  from speaker_name_extraction[OF v, of 4096]
  have "speaker_name (voice_entry ''fr-Jean-Luc_male_v2.MP3'' 4096) =
       substring_after_last CHR ''-''
         (substring_before_first CHR ''_'' (fst (splitext ''fr-Jean-Luc_male_v2.MP3'')))"
    by blast
  then have "speaker_name (voice_entry ''fr-Jean-Luc_male_v2.MP3'' 4096) = ''Luc''"
    unfolding s by (simp add: substring_after_last_def substring_before_first_def)
  with v n show ?thesis by blast
qed

section \<open>Parsing the file name the importer builds\<close>

lemma length_takeWhile_stop:
  "\<not> P c \<Longrightarrow> length (takeWhile P (xs @ c # ys)) \<le> length xs"
  by (simp add: takeWhile_append length_takeWhile_le)

lemma str_rfind_ge: "int (length u) \<le> str_rfind (u @ c # v) c"
proof -
  have "length (takeWhile (\<lambda>x. x \<noteq> c) (rev v @ c # rev u)) \<le> length (rev v)"
    by (rule length_takeWhile_stop) simp
  then show ?thesis by (simp add: str_rfind_def)
qed

lemma splitext_keeps_prefix: "\<exists>r. fst (splitext (u @ CHR ''.'' # v)) = u @ r"
proof -
  let ?p = "u @ CHR ''.'' # v"
  have d: "length u \<le> nat (str_rfind ?p CHR ''.'')"
    using str_rfind_ge[of u "CHR ''.''" v] by linarith
  have "fst (splitext ?p) = ?p \<or> fst (splitext ?p) = take (nat (str_rfind ?p CHR ''.'')) ?p"
    by (simp add: splitext_def Let_def)
  moreover have "take (nat (str_rfind ?p CHR ''.'')) ?p =
      u @ take (nat (str_rfind ?p CHR ''.'') - length u) (CHR ''.'' # v)"
    using d by simp
  ultimately show ?thesis by metis
qed

lemma voice_filename_round_trip:
  assumes "CHR ''_'' \<notin> set language_code" "CHR ''_'' \<notin> set speaker" "CHR ''-'' \<notin> set speaker"
  shows "speaker_name (voice_entry (voice_filename language_code speaker gender) file_size) = speaker"
proof -
  obtain r where r: "fst (splitext (voice_filename language_code speaker gender)) =
      (language_code @ ''-'' @ speaker @ ''_'' @ gender) @ r"
    using splitext_keeps_prefix[of "language_code @ ''-'' @ speaker @ ''_'' @ gender" "''wav''"]
    by (auto simp: voice_filename_def)
  have b: "substring_before_first CHR ''_'' ((language_code @ ''-'' @ speaker @ ''_'' @ gender) @ r)
      = language_code @ ''-'' @ speaker"
    using assms(1,2) by (simp add: substring_before_first_def takeWhile_append takeWhile_absent)
  have a: "substring_after_last CHR ''-'' (language_code @ ''-'' @ speaker) = speaker"
    using assms(3) by (simp add: substring_after_last_def takeWhile_append takeWhile_absent)
  have "speaker_name (voice_entry (voice_filename language_code speaker gender) file_size) =
      substring_after_last CHR ''-'' (substring_before_first CHR ''_''
        (fst (splitext (voice_filename language_code speaker gender))))"
    by (simp add: voice_entry_def Let_def extract_speaker_name_eq)
  also have "\<dots> = substring_after_last CHR ''-'' (language_code @ ''-'' @ speaker)"
    by (simp only: r b)
  also have "\<dots> = speaker"
    by (rule a)
  finally show ?thesis .
qed

lemma is_voice_file_voice_filename: "is_voice_file (voice_filename language_code speaker gender)"
  by (simp add: is_voice_file_def voice_filename_def str_endswith_any_def audio_extensions_def
      str_endswith_def str_lower_def lower_char_def)

section \<open>Facts about the array operations\<close>

lemma length_np_tile: "length (np_tile a reps) = reps * length a"
  by (induction reps) (simp_all add: np_tile_def)

lemma np_tile_nth: "i < reps * length a \<Longrightarrow> np_tile a reps ! i = a ! (i mod length a)"
proof (induction reps arbitrary: i)
  case 0
  then show ?case by simp
next
  case (Suc reps)
  show ?case
  proof (cases "i < length a")
    case True
    then show ?thesis by (simp add: np_tile_def nth_append)
  next
    case False
    then have "i - length a < reps * length a" using Suc.prems by simp
    then have "np_tile a reps ! (i - length a) = a ! ((i - length a) mod length a)"
      by (rule Suc.IH)
    moreover have "(i - length a) mod length a = i mod length a"
      using False by (simp add: le_mod_geq)
    ultimately show ?thesis using False by (simp add: np_tile_def nth_append)
  qed
qed

lemma repeats_cover:
  assumes "0 < m"
  shows "n \<le> nat \<lceil>real n / real m\<rceil> * m"
proof -
  define k where "k = nat \<lceil>real n / real m\<rceil>"
  have "real n / real m \<le> real_of_int \<lceil>real n / real m\<rceil>" by (rule le_of_int_ceiling)
  also have "real_of_int \<lceil>real n / real m\<rceil> \<le> real k"
    unfolding k_def by simp
  finally have "real n / real m \<le> real k" .
  moreover have "0 < real m" using assms by simp
  ultimately have "real n \<le> real k * real m"
    by (simp only: pos_divide_le_eq)
  then have "real n \<le> real (k * m)" by simp
  then have "n \<le> k * m" by (simp only: of_nat_le_iff)
  then show ?thesis unfolding k_def .
qed

lemma match_lengths_periodic:
  assumes "music \<noteq> []"
  shows "\<exists>tiled. match_lengths voice music = Inr tiled \<and> length tiled = length voice \<and>
           (\<forall>i<length voice. tiled ! i = music ! (i mod length music))"
proof (cases "length music > length voice")
  case True
  then show ?thesis by (simp add: match_lengths_def)
next
  case False
  let ?r = "nat \<lceil>real (length voice) / real (length music)\<rceil>"
  have m: "0 < length music" using assms by simp
  have c: "length voice \<le> ?r * length music" using m by (rule repeats_cover)
  have "match_lengths voice music = Inr (take (length voice) (np_tile music ?r))"
    using False assms by (simp add: match_lengths_def Let_def)
  moreover have "length (take (length voice) (np_tile music ?r)) = length voice"
    using c by (simp add: length_np_tile)
  moreover have "\<forall>i<length voice. take (length voice) (np_tile music ?r) ! i = music ! (i mod length music)"
    using c by (simp add: np_tile_nth)
  ultimately show ?thesis by blast
qed

lemma mix_same_length:
  assumes "length tiled = length voice"
  shows "\<exists>mixed. mix voice tiled music_volume = Inr mixed \<and> length mixed = length voice \<and>
           (\<forall>i<length voice. mixed ! i = voice ! i + tiled ! i * music_volume)"
  using assms by (simp add: mix_def np_add_def)

lemma peak_normalize_length:
  assumes "a \<noteq> []"
  shows "\<exists>normalized. peak_normalize a = Inr normalized \<and> length normalized = length a"
  using assms by (cases a) (simp_all add: peak_normalize_def)

lemma match_lengths_empty_music: "match_lengths voice [] = Inl ZeroDivisionError"
  by (simp add: match_lengths_def)

section \<open>Facts about the file system\<close>

lemma map_of_update: "map_of (AList.update k v al) k' = (if k' = k then Some v else map_of al k')"
  by (simp add: update_conv')

lemma lookup_File: "lookup (File sz a) cs = (if cs = [] then Some (File sz a) else None)"
  by (cases cs) simp_all

lemma lookup_empty_Dir: "lookup (Dir []) cs = (if cs = [] then Some (Dir []) else None)"
  by (cases cs) simp_all

lemma put_file_lookup: "put_file n cs f = Inr n' \<Longrightarrow> lookup n' cs = Some f"
  by (induction n cs f arbitrary: n' rule: put_file.induct)
     (auto simp: map_of_update split: option.splits node.splits sum.splits)

lemma put_file_ok_iff:
  "(\<exists>n'. put_file n cs f = Inr n') \<longleftrightarrow>
     cs \<noteq> [] \<and> is_dir_node (lookup n (butlast cs)) \<and> \<not> is_dir_node (lookup n cs)"
  by (induction n cs f rule: put_file.induct)
     (auto simp: lookup_File split: option.splits node.splits sum.splits)

lemma put_file_dirs:
  "put_file n cs (File sz a) = Inr n' \<Longrightarrow> is_dir_node (lookup n' ds) = is_dir_node (lookup n ds)"
proof (induction n cs "File sz a" arbitrary: n' ds rule: put_file.induct)
  case (1 n)
  then show ?case by simp
next
  case (2 sz' a' c cs)
  then show ?case by simp
next
  case (3 es c)
  then show ?case
    by (cases ds) (auto simp: map_of_update lookup_File split: option.splits node.splits if_splits)
next
  case (4 es c c' cs)
  then show ?case
    by (cases ds) (auto simp: map_of_update split: option.splits sum.splits if_splits)
qed

lemma mkdirs_is_dir: "mkdirs n cs = Inr n' \<Longrightarrow> is_dir_node (lookup n' cs)"
  by (induction n cs arbitrary: n' rule: mkdirs.induct)
     (auto simp: map_of_update split: option.splits sum.splits)

lemma mkdirs_below:
  "mkdirs n cs = Inr n' \<Longrightarrow> lookup n' (cs @ x # xs) = lookup n (cs @ x # xs)"
proof (induction n cs arbitrary: n' rule: mkdirs.induct)
  case (4 es c cs)
  then show ?case
    by (auto simp: map_of_update lookup_empty_Dir split: option.splits sum.splits)
qed auto

lemma put_file_error: "put_file n cs f = Inl e \<Longrightarrow> e = LibsndfileError"
  by (induction n cs f rule: put_file.induct)
     (auto split: option.splits node.splits sum.splits)

lemma print_line_simps [simp]:
  "fs_root (print_line m w) = fs_root w"
  "cwd (print_line m w) = cwd w"
  "stdout (print_line m w) = stdout w @ [m]"
  by (simp_all add: print_line_def)

lemma print_line_fs [simp]:
  "resolve (print_line m w) p = resolve w p"
  "node_at (print_line m w) p = node_at w p"
  "is_dir (print_line m w) p = is_dir w p"
  "written_signal (print_line m w) p = written_signal w p"
  "writable (print_line m w) p = writable w p"
  by (simp_all add: resolve_def node_at_def is_dir_def written_signal_def writable_def)

lemma sf_write_ok:
  assumes "writable w p"
  shows "\<exists>w'. sf_write w p d sr = Inr w' \<and> written_signal w' p = Some (d, sr) \<and>
           cwd w' = cwd w \<and> stdout w' = stdout w \<and> (\<forall>q. is_dir w' q = is_dir w q)"
proof -
  let ?f = "File (wav_bytes (length d)) (Some (d, sr))"
  from assms obtain r where r: "put_file (fs_root w) (resolve w p) ?f = Inr r"
    using put_file_ok_iff[of "fs_root w" "resolve w p" ?f] by (auto simp: writable_def)
  let ?w' = "w\<lparr>fs_root := r\<rparr>"
  have p: "p \<noteq> []" using assms by (simp add: writable_def)
  have res: "resolve ?w' q = resolve w q" for q by (simp add: resolve_def)
  have "sf_write w p d sr = Inr ?w'" using r p by (simp add: sf_write_def)
  moreover have "written_signal ?w' p = Some (d, sr)"
    using put_file_lookup[OF r] p by (simp add: written_signal_def node_at_def res)
  moreover have "is_dir ?w' q = is_dir w q" for q
    using put_file_dirs[OF r] by (simp add: is_dir_def node_at_def res)
  ultimately show ?thesis by auto
qed

lemma sf_write_fail: "\<not> writable w p \<Longrightarrow> sf_write w p d sr = Inl LibsndfileError"
proof -
  assume n: "\<not> writable w p"
  let ?f = "File (wav_bytes (length d)) (Some (d, sr))"
  show ?thesis
  proof (cases "p = []")
    case True
    then show ?thesis by (simp add: sf_write_def)
  next
    case False
    with n have "\<not> (\<exists>n'. put_file (fs_root w) (resolve w p) ?f = Inr n')"
      unfolding put_file_ok_iff by (auto simp: writable_def)
    then obtain e where "put_file (fs_root w) (resolve w p) ?f = Inl e"
      by (cases "put_file (fs_root w) (resolve w p) ?f") auto
    moreover from this have "e = LibsndfileError" by (rule put_file_error)
    ultimately show ?thesis using False by (simp add: sf_write_def)
  qed
qed

lemma os_makedirs_ok:
  assumes "os_makedirs w p = Inr w1"
  shows "is_dir w1 p" and "cwd w1 = cwd w" and "stdout w1 = stdout w"
    and "lookup (fs_root w1) (resolve w p @ x # xs) = lookup (fs_root w) (resolve w p @ x # xs)"
    and "resolve w1 q = resolve w q"
proof -
  from assms obtain r where r: "mkdirs (fs_root w) (resolve w p) = Inr r"
    and w1: "w1 = w\<lparr>fs_root := r\<rparr>" and p: "p \<noteq> []"
    by (auto simp: os_makedirs_def split: if_splits sum.splits)
  have res: "resolve w1 q' = resolve w q'" for q' by (simp add: w1 resolve_def)
  show "resolve w1 q = resolve w q" by (rule res)
  show "is_dir w1 p" using mkdirs_is_dir[OF r] p by (simp add: is_dir_def node_at_def res) (simp add: w1)
  show "cwd w1 = cwd w" "stdout w1 = stdout w" by (simp_all add: w1)
  show "lookup (fs_root w1) (resolve w p @ x # xs) = lookup (fs_root w) (resolve w p @ x # xs)"
    using mkdirs_below[OF r] by (simp add: w1)
qed

lemma str_split_append_sep:
  "str_split sep (a @ sep # b) = str_split sep a @ str_split sep b"
proof (induction a)
  case Nil
  then show ?case by simp
next
  case (Cons x a)
  then show ?case by (cases "str_split sep a") (auto simp: str_split_not_Nil split: list.splits)
qed

lemma path_components_slash:
  "path_components (a @ CHR ''/'' # b) = path_components a @ path_components b"
  by (simp add: path_components_def str_split_append_sep)

lemma path_components_name:
  "CHR ''/'' \<notin> set f \<Longrightarrow> f \<noteq> [] \<Longrightarrow> f \<noteq> ''.'' \<Longrightarrow> path_components f = [f]"
  by (simp add: path_components_def str_split_no_sep)

lemma resolve_join_name:
  assumes "d \<noteq> []" "CHR ''/'' \<notin> set f" "f \<noteq> []" "f \<noteq> ''.''"
  shows "resolve w (os_path_join d f) = resolve w d @ [f]"
proof -
  have f1: "take 1 f \<noteq> ''/''" using assms(2,3) by (cases f) auto
  have t: "(take 1 (d @ s) = ''/'') = (take 1 d = ''/'')" for s
    using assms(1) by (cases d) auto
  have j: "os_path_join d f = (if last d = CHR ''/'' then d @ f else d @ ''/'' @ f)"
    using f1 assms(1) by (simp add: os_path_join_def)
  have a: "(take 1 (os_path_join d f) = ''/'') = (take 1 d = ''/'')"
    unfolding j by (simp only: t if_distrib[of "\<lambda>x. take 1 x = ''/''"] if_cancel)
  have c: "path_components (os_path_join d f) = path_components d @ [f]"
  proof (cases "last d = CHR ''/''")
    case True
    then obtain d' where d: "d = d' @ ''/''"
      using assms(1) by (metis append_butlast_last_id)
    have "path_components (d @ f) = path_components d' @ [f]"
      using assms by (simp add: d path_components_slash path_components_name)
    moreover have "path_components d = path_components d'"
      by (simp add: d path_components_slash) (simp add: path_components_def)
    ultimately show ?thesis using True by (simp add: j)
  next
    case False
    have "path_components (d @ ''/'' @ f) = path_components d @ [f]"
      using assms by (simp add: path_components_slash path_components_name)
    then show ?thesis using False by (simp add: j)
  qed
  show ?thesis
    unfolding resolve_def a c by simp
qed

section \<open>Facts about peak normalization\<close>

lemma np_max_eq_Max: "a \<noteq> [] \<Longrightarrow> np_max a = Inr (Max (set a))"
proof (cases a)
  case Nil
  assume "a \<noteq> []"
  with Nil show ?thesis by simp
next
  case (Cons x xs)
  show ?thesis unfolding Cons np_max.simps Max.set_eq_fold ..
qed

lemma peak_bounds:
  fixes a :: "real list"
  assumes "a \<noteq> []"
  shows "\<forall>x\<in>set a. \<bar>x\<bar> \<le> Max (set (map abs a))"
    and "\<exists>x\<in>set a. \<bar>x\<bar> = Max (set (map abs a))"
    and "0 \<le> Max (set (map abs a))"
proof -
  let ?S = "set (map abs a)"
  have fin: "finite ?S" and ne: "?S \<noteq> {}" using assms by simp_all
  show 1: "\<forall>x\<in>set a. \<bar>x\<bar> \<le> Max ?S"
    using fin by (auto intro: Max_ge)
  have "Max ?S \<in> ?S" using fin ne by (rule Max_in)
  then show "\<exists>x\<in>set a. \<bar>x\<bar> = Max ?S" by auto
  then obtain x where "x \<in> set a" "\<bar>x\<bar> = Max ?S" by blast
  then show "0 \<le> Max ?S" by (metis abs_ge_zero)
qed

lemma peak_positive:
  fixes a :: "real list"
  assumes "\<exists>x\<in>set a. x \<noteq> 0"
  shows "0 < Max (set (map abs a))"
proof -
  from assms obtain x where x: "x \<in> set a" "x \<noteq> 0" by blast
  then have "a \<noteq> []" by auto
  then have "\<bar>x\<bar> \<le> Max (set (map abs a))" using peak_bounds(1) x(1) by blast
  moreover have "0 < \<bar>x\<bar>" using x(2) by simp
  ultimately show ?thesis by linarith
qed

lemma peak_zero:
  fixes a :: "real list"
  assumes "a \<noteq> []" "\<forall>x\<in>set a. x = 0"
  shows "Max (set (map abs a)) = 0"
proof -
  from peak_bounds(2)[OF assms(1)] obtain x where "x \<in> set a" "\<bar>x\<bar> = Max (set (map abs a))"
    by blast
  with assms(2) show ?thesis by auto
qed

lemma peak_normalize_nonsilent:
  assumes "\<exists>x\<in>set a. x \<noteq> 0"
  shows "\<exists>peak. np_max (map abs a) = Inr peak \<and> 0 < peak \<and>
           peak_normalize a = Inr (map (\<lambda>x. Finite (x / peak * (95 / 100))) a) \<and>
           np_max (map abs (map (\<lambda>x. x / peak * (95 / 100)) a)) = Inr (95 / 100)"
proof -
  let ?p = "Max (set (map abs a))"
  let ?ys = "map (\<lambda>x. x / ?p * (95 / 100)) a"
  from assms have ne: "a \<noteq> []" by auto
  have pos: "0 < ?p" using assms by (rule peak_positive)
  have m: "np_max (map abs a) = Inr ?p" using ne by (simp add: np_max_eq_Max)
  have n: "peak_normalize a = Inr (map (\<lambda>x. Finite (x / ?p * (95 / 100))) a)"
    using pos by (simp add: peak_normalize_def m np_divide_def)
  have "Max (set (map abs ?ys)) = 95 / 100"
  proof (rule Max_eqI)
    show "finite (set (map abs ?ys))" by simp
  next
    fix y assume "y \<in> set (map abs ?ys)"
    then obtain x where x: "x \<in> set a" and y: "y = \<bar>x / ?p * (95 / 100)\<bar>" by auto
    have "\<bar>x\<bar> \<le> ?p" using peak_bounds(1)[OF ne] x by blast
    then have "\<bar>x\<bar> / ?p \<le> 1" using pos by (simp add: divide_le_eq_1_pos)
    then have "\<bar>x\<bar> / ?p * (95 / 100) \<le> 1 * (95 / 100)"
      by (intro mult_right_mono) simp_all
    moreover have "y = \<bar>x\<bar> / ?p * (95 / 100)"
      using pos by (simp add: y abs_mult)
    ultimately show "y \<le> 95 / 100" by simp
  next
    from peak_bounds(2)[OF ne] obtain x where x: "x \<in> set a" and e: "\<bar>x\<bar> = ?p" by blast
    have "\<bar>x / ?p * (95 / 100)\<bar> = \<bar>x\<bar> / ?p * (95 / 100)"
      using pos by (simp add: abs_mult)
    also have "\<dots> = 95 / 100" using pos by (simp add: e)
    finally have "\<bar>x / ?p * (95 / 100)\<bar> = 95 / 100" .
    then have "95 / 100 = (abs \<circ> (\<lambda>x. x / ?p * (95 / 100))) x" by simp
    then show "95 / 100 \<in> set (map abs ?ys)"
      using x unfolding map_map set_map by (rule image_eqI)
  qed
  moreover have "?ys \<noteq> []" using ne by simp
  ultimately have "np_max (map abs ?ys) = Inr (95 / 100)"
    by (simp add: np_max_eq_Max del: map_map)
  with m pos n show ?thesis by blast
qed

lemma peak_normalize_silent:
  assumes "a \<noteq> []" "\<forall>x\<in>set a. x = 0"
  shows "np_max (map abs a) = Inr 0" and "peak_normalize a = Inr (replicate (length a) NaN)"
proof -
  have z: "Max (set (map abs a)) = 0" using assms by (rule peak_zero)
  show m: "np_max (map abs a) = Inr 0" using assms(1) z by (simp add: np_max_eq_Max)
  have "map (\<lambda>x. np_multiply (np_divide x 0) (95 / 100)) a = replicate (length a) NaN"
    using assms(2) by (induction a) (simp_all add: np_divide_def)
  then show "peak_normalize a = Inr (replicate (length a) NaN)"
    by (simp add: peak_normalize_def m)
qed

lemma peak_normalize_empty: "peak_normalize [] = Inl ValueError"
  by (simp add: peak_normalize_def)

section \<open>Runs of the importer and the mixer\<close>

lemma add_voice_run:
  assumes mk: "os_makedirs w voices_dir = Inr w1"
    and load: "librosa_load lib source_audio_path (Some 24000) True = Inr (y, sr)"
    and trim: "effects_trim lib (flat y) = Inr audio"
    and norm: "peak_normalize audio = Inr normalized"
    and wr: "writable w1 (os_path_join voices_dir (voice_filename language_code speaker gender))"
  shows "\<exists>w'. add_voice_to_vibevoice lib source_audio_path speaker language_code gender voices_dir w
             = (w', Inr (os_path_join voices_dir (voice_filename language_code speaker gender))) \<and>
           written_signal w' (os_path_join voices_dir (voice_filename language_code speaker gender))
             = Some (normalized, 24000) \<and>
           is_dir w' voices_dir \<and>
           stdout w' = stdout w @
             [ProcessingAudio source_audio_path,
              VoiceAdded (os_path_join voices_dir (voice_filename language_code speaker gender)),
              SpeakerNameForScripts speaker]"
proof -
  let ?t = "os_path_join voices_dir (voice_filename language_code speaker gender)"
  let ?w2 = "print_line (ProcessingAudio source_audio_path) w1"
  have "writable ?w2 ?t" using wr by simp
  then obtain w3 where w3: "sf_write ?w2 ?t normalized 24000 = Inr w3"
    and sig: "written_signal w3 ?t = Some (normalized, 24000)"
    and out: "stdout w3 = stdout ?w2"
    and dirs: "\<forall>q. is_dir w3 q = is_dir ?w2 q"
    using sf_write_ok[of ?w2 ?t normalized 24000] by blast
  have d: "is_dir w3 voices_dir" using dirs os_makedirs_ok(1)[OF mk] by simp
  have o: "stdout w3 = stdout w @ [ProcessingAudio source_audio_path]"
    using out os_makedirs_ok(3)[OF mk] by simp
  have "add_voice_to_vibevoice lib source_audio_path speaker language_code gender voices_dir w
      = (print_line (SpeakerNameForScripts speaker) (print_line (VoiceAdded ?t) w3), Inr ?t)"
    by (simp add: add_voice_to_vibevoice_def mk load trim norm w3 Let_def)
  then show ?thesis using sig d o by simp
qed

lemma mixer_run:
  assumes lv: "librosa_load lib voice_path (Some 24000) True = Inr (v, sr)"
    and lm: "librosa_load lib music_path (Some 24000) True = Inr (m, sr')"
    and ml: "match_lengths (flat v) (flat m) = Inr music"
    and mx: "mix (flat v) music music_volume = Inr mixed"
    and norm: "peak_normalize mixed = Inr normalized"
  shows "create_voice_with_background_music lib voice_path music_path speaker language_code
           voices_dir music_volume w =
         (case sf_write w (os_path_join voices_dir (bgm_filename language_code speaker))
                 normalized 24000 of
            Inl e \<Rightarrow> (w, Inl e)
          | Inr w1 \<Rightarrow>
              (print_line (VoiceWithBgmCreated
                 (os_path_join voices_dir (bgm_filename language_code speaker))) w1,
               Inr (os_path_join voices_dir (bgm_filename language_code speaker))))"
  by (simp add: create_voice_with_background_music_def lv lm ml mx norm Let_def)

lemma mixer_run_ok:
  assumes lv: "librosa_load lib voice_path (Some 24000) True = Inr (v, sr)"
    and lm: "librosa_load lib music_path (Some 24000) True = Inr (m, sr')"
    and ml: "match_lengths (flat v) (flat m) = Inr music"
    and mx: "mix (flat v) music music_volume = Inr mixed"
    and norm: "peak_normalize mixed = Inr normalized"
    and wr: "writable w (os_path_join voices_dir (bgm_filename language_code speaker))"
  shows "\<exists>w'. create_voice_with_background_music lib voice_path music_path speaker language_code
             voices_dir music_volume w
             = (w', Inr (os_path_join voices_dir (bgm_filename language_code speaker))) \<and>
           written_signal w' (os_path_join voices_dir (bgm_filename language_code speaker))
             = Some (normalized, 24000) \<and>
           (\<forall>q. is_dir w' q = is_dir w q)"
proof -
  let ?t = "os_path_join voices_dir (bgm_filename language_code speaker)"
  from wr obtain w1 where w1: "sf_write w ?t normalized 24000 = Inr w1"
    and sig: "written_signal w1 ?t = Some (normalized, 24000)"
    and dirs: "\<forall>q. is_dir w1 q = is_dir w q"
    using sf_write_ok[of w ?t normalized 24000] by blast
  show ?thesis
    unfolding mixer_run[OF lv lm ml mx norm] w1 using sig dirs by simp
qed



lemma mixer_error_keeps_world:
  "create_voice_with_background_music lib voice_path music_path speaker language_code
             voices_dir music_volume w = (w', Inl e) \<Longrightarrow> w' = w"
  by (auto simp: create_voice_with_background_music_def Let_def split: sum.splits prod.splits)

section \<open>The sample inputs, evaluated\<close>

lemma load_voice_wav:
  "librosa_load example_lib ''voice.wav'' (Some 24000) True =
     Inr (Array1 [1/2, - 1, 1/4, 0, 1/2], 24000)"
  by (simp add: example_lib_def librosa_load_def)

lemma load_music_wav:
  "librosa_load example_lib ''music.wav'' (Some 24000) True = Inr (Array1 [1/5, - 1/5], 24000)"
  by (simp add: example_lib_def librosa_load_def)

lemma load_empty_wav:
  "librosa_load example_lib ''empty.wav'' (Some 24000) True = Inr (Array1 [], 24000)"
  by (simp add: example_lib_def librosa_load_def)

lemma load_silence_wav:
  "librosa_load example_lib ''silence.wav'' (Some 24000) True = Inr (Array1 [0, 0, 0], 24000)"
  by (simp add: example_lib_def librosa_load_def)

lemma trim_example: "effects_trim example_lib xs = Inr xs"
  by (simp add: example_lib_def)

lemma bgm_target_example:
  "os_path_join ''demo/voices'' (bgm_filename ''en'' ''Emma'') = ''demo/voices/en-Emma_bgm.wav''"
  by (simp add: os_path_join_def bgm_filename_def)

lemma voice_target_example:
  "os_path_join ''demo/voices'' (voice_filename ''en'' ''Zoe'' ''female'') =
     ''demo/voices/en-Zoe_female.wav''"
  by (simp add: os_path_join_def voice_filename_def)

lemma writable_bgm_example: "writable example_world ''demo/voices/en-Emma_bgm.wav''"
  by (simp add: writable_def example_world_def resolve_def path_components_def)

section \<open>The mixer: length and content of the output\<close>

lemma librosa_load_mono_1d:
  "librosa_load lib path sr True = Inr (y, r) \<Longrightarrow> \<exists>xs. y = Array1 xs"
proof -
  have m: "\<exists>xs. to_mono a = Array1 xs" for a by (cases a) simp_all
  have r: "\<exists>xs. resample_array lib (to_mono a) p q = Array1 xs" for a p q
    by (cases a) simp_all
  assume "librosa_load lib path sr True = Inr (y, r)"
  then show ?thesis using m r
    by (auto simp: librosa_load_def Let_def split: sum.splits option.splits)
qed

lemma mixer_signal:
  assumes "voice \<noteq> []" "music \<noteq> []"
  shows "\<exists>tiled mixed normalized.
           match_lengths voice music = Inr tiled \<and>
           mix voice tiled music_volume = Inr mixed \<and>
           peak_normalize mixed = Inr normalized \<and>
           length tiled = length voice \<and> length mixed = length voice \<and>
           length normalized = length voice \<and>
           (\<forall>i<length voice. tiled ! i = music ! (i mod length music)) \<and>
           (\<forall>i<length voice. mixed ! i = voice ! i + music ! (i mod length music) * music_volume)"
proof -
  from match_lengths_periodic[OF assms(2), of voice] obtain tiled
    where t: "match_lengths voice music = Inr tiled" "length tiled = length voice"
      "\<forall>i<length voice. tiled ! i = music ! (i mod length music)" by blast
  from mix_same_length[OF t(2), of music_volume] obtain mixed
    where m: "mix voice tiled music_volume = Inr mixed" "length mixed = length voice"
      "\<forall>i<length voice. mixed ! i = voice ! i + tiled ! i * music_volume" by blast
  have "mixed \<noteq> []" using m(2) assms(1) by auto
  from peak_normalize_length[OF this] obtain normalized
    where n: "peak_normalize mixed = Inr normalized" "length normalized = length mixed" by blast
  have "\<forall>i<length voice. mixed ! i = voice ! i + music ! (i mod length music) * music_volume"
    using m(3) t(3) by simp
  with t m n show ?thesis by (intro exI[of _ tiled] exI[of _ mixed] exI[of _ normalized]) simp
qed

text \<open>
  Claim C2, amended.  When the voice and the music both load as non-empty signals and the
  output file can be opened, the mixer returns the path of a file holding a signal exactly as
  long as the voice, whether the music was longer or shorter.  An empty music signal makes
  the call raise \<open>ZeroDivisionError\<close>, whatever the voice.
\<close>

theorem mixer_output_length:
  assumes "librosa_load lib voice_path (Some 24000) True = Inr (v, sr)"
    and "librosa_load lib music_path (Some 24000) True = Inr (m, sr')"
  shows "(flat v \<noteq> [] \<and> flat m \<noteq> [] \<and>
          writable w (os_path_join voices_dir (bgm_filename language_code speaker)) \<longrightarrow>
            (\<exists>w' normalized.
               create_voice_with_background_music lib voice_path music_path speaker
                 language_code voices_dir music_volume w =
                 (w', Inr (os_path_join voices_dir (bgm_filename language_code speaker))) \<and>
               written_signal w' (os_path_join voices_dir (bgm_filename language_code speaker)) =
                 Some (normalized, 24000) \<and>
               length normalized = length (flat v))) \<and>
         (flat m = [] \<longrightarrow>
            create_voice_with_background_music lib voice_path music_path speaker
              language_code voices_dir music_volume w = (w, Inl ZeroDivisionError))"
proof (intro conjI impI)
  assume a: "flat v \<noteq> [] \<and> flat m \<noteq> [] \<and>
      writable w (os_path_join voices_dir (bgm_filename language_code speaker))"
  then obtain tiled mixed normalized where
    s: "match_lengths (flat v) (flat m) = Inr tiled"
       "mix (flat v) tiled music_volume = Inr mixed"
       "peak_normalize mixed = Inr normalized"
       "length normalized = length (flat v)"
    using mixer_signal[of "flat v" "flat m" music_volume] by blast
  from a have wr: "writable w (os_path_join voices_dir (bgm_filename language_code speaker))"
    by simp
  from mixer_run_ok[OF assms s(1,2,3) wr] s(4)
  show "\<exists>w' normalized.
      create_voice_with_background_music lib voice_path music_path speaker
        language_code voices_dir music_volume w =
        (w', Inr (os_path_join voices_dir (bgm_filename language_code speaker))) \<and>
      written_signal w' (os_path_join voices_dir (bgm_filename language_code speaker)) =
        Some (normalized, 24000) \<and>
      length normalized = length (flat v)"
    by blast
next
  assume "flat m = []"
  then show "create_voice_with_background_music lib voice_path music_path speaker
      language_code voices_dir music_volume w = (w, Inl ZeroDivisionError)"
    by (simp add: create_voice_with_background_music_def assms match_lengths_empty_music)
qed

theorem mixer_output_length_witness:
  "\<exists>w' normalized.
     create_voice_with_background_music example_lib ''voice.wav'' ''music.wav'' ''Emma'' ''en''
       ''demo/voices'' (1/10) example_world = (w', Inr ''demo/voices/en-Emma_bgm.wav'') \<and>
     written_signal w' ''demo/voices/en-Emma_bgm.wav'' = Some (normalized, 24000) \<and>
     length normalized = 5"
proof -
  have h: "flat (Array1 [1/2, - 1, 1/4, 0, 1/2]) \<noteq> [] \<and> flat (Array1 [1/5, - 1/5]) \<noteq> [] \<and>
      writable example_world (os_path_join ''demo/voices'' (bgm_filename ''en'' ''Emma''))"
    by (simp add: bgm_target_example writable_bgm_example)
  from mixer_output_length[OF load_voice_wav load_music_wav, of example_world "''demo/voices''"
      "''en''" "''Emma''" "1/10"] h
  obtain w' normalized where
    r: "create_voice_with_background_music example_lib ''voice.wav'' ''music.wav'' ''Emma'' ''en''
       ''demo/voices'' (1/10) example_world =
         (w', Inr (os_path_join ''demo/voices'' (bgm_filename ''en'' ''Emma'')))"
    and s: "written_signal w' (os_path_join ''demo/voices'' (bgm_filename ''en'' ''Emma'')) =
         Some (normalized, 24000)"
    and n: "length normalized = length (flat (Array1 [1/2, - 1, 1/4, 0, 1/2]))"
    by blast
  have "length normalized = 5" using n by simp
  with r s show ?thesis unfolding bgm_target_example by blast
qed

theorem mixer_output_length_counterexample:
  "create_voice_with_background_music example_lib ''voice.wav'' ''empty.wav'' ''Emma'' ''en''
     ''demo/voices'' (1/10) example_world = (example_world, Inl ZeroDivisionError)"
  by (simp add: create_voice_with_background_music_def load_voice_wav load_empty_wav
      match_lengths_def)

text \<open>
  Claim C3.  When the music is not empty and strictly shorter than the voice, the matched
  music track is the music repeated and cut to the voice's length: its scaled sample at
  every index \<open>i\<close> below that length is \<open>music[i mod len(music)] * music_volume\<close>.  The mix
  adds exactly that to the voice sample, and the normalized mix is what the mixer writes.
\<close>

theorem mixer_music_is_tiled:
  assumes "librosa_load lib voice_path (Some 24000) True = Inr (v, sr)"
    and "librosa_load lib music_path (Some 24000) True = Inr (m, sr')"
    and "flat m \<noteq> []"
    and "length (flat m) < length (flat v)"
  shows "\<exists>tiled mixed normalized.
           match_lengths (flat v) (flat m) = Inr tiled \<and>
           length tiled = length (flat v) \<and>
           (\<forall>i<length (flat v).
              map (\<lambda>x. x * music_volume) tiled ! i =
                flat m ! (i mod length (flat m)) * music_volume) \<and>
           mix (flat v) tiled music_volume = Inr mixed \<and>
           (\<forall>i<length (flat v).
              mixed ! i = flat v ! i + flat m ! (i mod length (flat m)) * music_volume) \<and>
           peak_normalize mixed = Inr normalized \<and>
           create_voice_with_background_music lib voice_path music_path speaker
             language_code voices_dir music_volume w =
             (case sf_write w (os_path_join voices_dir (bgm_filename language_code speaker))
                     normalized 24000 of
                Inl e \<Rightarrow> (w, Inl e)
              | Inr w1 \<Rightarrow>
                  (print_line (VoiceWithBgmCreated
                     (os_path_join voices_dir (bgm_filename language_code speaker))) w1,
                   Inr (os_path_join voices_dir (bgm_filename language_code speaker))))"
proof -
  have ne: "flat v \<noteq> []" using assms(4) by auto
  from mixer_signal[OF ne assms(3), of music_volume] obtain tiled mixed normalized where
    s: "match_lengths (flat v) (flat m) = Inr tiled"
       "mix (flat v) tiled music_volume = Inr mixed"
       "peak_normalize mixed = Inr normalized"
       "length tiled = length (flat v)"
       "\<forall>i<length (flat v). tiled ! i = flat m ! (i mod length (flat m))"
       "\<forall>i<length (flat v). mixed ! i = flat v ! i + flat m ! (i mod length (flat m)) * music_volume"
    by blast
  have sc: "\<forall>i<length (flat v).
      map (\<lambda>x. x * music_volume) tiled ! i = flat m ! (i mod length (flat m)) * music_volume"
    using s(4,5) by simp
  note run = mixer_run[OF assms(1,2) s(1,2,3), of speaker language_code voices_dir w]
  show ?thesis
    using s(1,4) sc s(2,6,3) run
    by (intro exI[of _ tiled] exI[of _ mixed] exI[of _ normalized] conjI)
qed

theorem mixer_music_is_tiled_witness:
  "\<exists>tiled mixed.
     match_lengths [1/2, - 1, 1/4, 0, 1/2] [1/5, - 1/5] = Inr tiled \<and>
     map (\<lambda>x. x * (1/10)) tiled ! 4 = 1/5 * (1/10) \<and>
     mix [1/2, - 1, 1/4, 0, 1/2] tiled (1/10) = Inr mixed \<and>
     mixed ! 3 = 0 + (- 1/5) * (1/10)"
proof -
  let ?V = "[1/2, - 1, 1/4, 0, 1/2] :: real list"
  let ?M = "[1/5, - 1/5] :: real list"
  have l: "length (flat (Array1 ?M)) < length (flat (Array1 ?V))" by simp
  have n: "flat (Array1 ?M) \<noteq> []" by simp
  from mixer_music_is_tiled[OF load_voice_wav load_music_wav n l, of "1/10"]
  obtain tiled mixed where
    t: "match_lengths (flat (Array1 ?V)) (flat (Array1 ?M)) = Inr tiled"
    and a: "\<forall>i<length (flat (Array1 ?V)). map (\<lambda>x. x * (1/10)) tiled ! i =
              flat (Array1 ?M) ! (i mod length (flat (Array1 ?M))) * (1/10)"
    and m: "mix (flat (Array1 ?V)) tiled (1/10) = Inr mixed"
    and b: "\<forall>i<length (flat (Array1 ?V)). mixed ! i =
              flat (Array1 ?V) ! i + flat (Array1 ?M) ! (i mod length (flat (Array1 ?M))) * (1/10)"
    by blast
  have i4: "(4::nat) < length (flat (Array1 ?V))" and i3: "(3::nat) < length (flat (Array1 ?V))"
    by simp_all
  have "map (\<lambda>x. x * (1/10)) tiled ! 4 =
      flat (Array1 ?M) ! (4 mod length (flat (Array1 ?M))) * (1/10)"
    using a i4 by blast
  moreover have "flat (Array1 ?M) ! (4 mod length (flat (Array1 ?M))) = 1/5"
    by (simp add: numeral_2_eq_2[symmetric])
  ultimately have r4: "map (\<lambda>x. x * (1/10)) tiled ! 4 = 1/5 * (1/10)" by (simp only:)
  have "mixed ! 3 =
      flat (Array1 ?V) ! 3 + flat (Array1 ?M) ! (3 mod length (flat (Array1 ?M))) * (1/10)"
    using b i3 by blast
  moreover have "flat (Array1 ?V) ! 3 = 0" by simp
  moreover have "flat (Array1 ?M) ! (3 mod length (flat (Array1 ?M))) = - 1/5"
    by (simp add: numeral_2_eq_2[symmetric])
  ultimately have r3: "mixed ! 3 = 0 + (- 1/5) * (1/10)" by (simp only:)
  from t m have "match_lengths ?V ?M = Inr tiled" "mix ?V tiled (1/10) = Inr mixed"
    by (simp_all only: flat.simps)
  with r4 r3 show ?thesis by blast
qed

section \<open>The importer: path and peak of the output\<close>

lemma voice_filename_plain:
  assumes "CHR ''/'' \<notin> set (voice_filename language_code speaker gender)"
  shows "voice_filename language_code speaker gender \<noteq> []"
    and "voice_filename language_code speaker gender \<noteq> ''.''"
    and "take 1 (voice_filename language_code speaker gender) \<noteq> ''/''"
proof -
  let ?f = "voice_filename language_code speaker gender"
  show "?f \<noteq> []" by (simp add: voice_filename_def)
  have "6 \<le> length ?f" by (simp add: voice_filename_def)
  then show "?f \<noteq> ''.''" by auto
  show "take 1 ?f \<noteq> ''/''"
    using assms by (cases ?f) auto
qed

lemma os_makedirs_nonempty: "os_makedirs w p = Inr w1 \<Longrightarrow> p \<noteq> []"
  by (auto simp: os_makedirs_def)

lemma os_path_join_plain:
  "d \<noteq> [] \<Longrightarrow> take 1 f \<noteq> ''/'' \<Longrightarrow>
     os_path_join d f = (if last d = CHR ''/'' then d @ f else d @ ''/'' @ f)"
  by (simp add: os_path_join_def)

lemma makedirs_then_writable:
  assumes mk: "os_makedirs w d = Inr w1"
    and f: "CHR ''/'' \<notin> set f" "f \<noteq> []" "f \<noteq> ''.''"
    and nodir: "\<not> is_dir w (os_path_join d f)"
  shows "writable w1 (os_path_join d f)"
proof -
  have d: "d \<noteq> []" using mk by (rule os_makedirs_nonempty)
  have res: "resolve w1 q = resolve w q" for q using os_makedirs_ok(5)[OF mk] .
  have rj: "resolve w (os_path_join d f) = resolve w d @ [f]"
    using d f by (rule resolve_join_name)
  have j: "os_path_join d f \<noteq> []" using d f(2) by (auto simp: os_path_join_def)
  have "is_dir w1 d" using os_makedirs_ok(1)[OF mk] .
  then have up: "is_dir_node (lookup (fs_root w1) (resolve w d))"
    using d by (simp add: is_dir_def node_at_def res)
  have "lookup (fs_root w1) (resolve w d @ [f]) = lookup (fs_root w) (resolve w d @ [f])"
    using os_makedirs_ok(4)[OF mk] .
  moreover have "\<not> is_dir_node (lookup (fs_root w) (resolve w d @ [f]))"
    using nodir j by (simp add: is_dir_def node_at_def rj)
  ultimately have here: "\<not> is_dir_node (lookup (fs_root w1) (resolve w d @ [f]))" by simp
  show ?thesis
    using j up here by (simp add: writable_def res rj)
qed

lemma voice_filename_relative:
  "take 1 language_code \<noteq> ''/'' \<Longrightarrow>
     take 1 (voice_filename language_code speaker gender) \<noteq> ''/''"
  by (cases language_code) (simp_all add: voice_filename_def)

text \<open>
  Claim C7, amended.  When the target directory can be made (or is there), the source loads,
  the trimmed signal has a sample other than zero, the language code does not begin with a
  slash and the output file can be opened for writing, the importer returns the path
  \<open><dir>/<lang>-<speaker>_<gender>.wav\<close> (with one slash between directory and name) and the
  file at that path holds a signal of finite samples, as long as the trimmed one, whose
  largest absolute value is \<open>0.95\<close>.
\<close>

theorem importer_output:
  assumes mk: "os_makedirs w voices_dir = Inr w1"
    and rel: "take 1 language_code \<noteq> ''/''"
    and wr: "writable w1 (os_path_join voices_dir (voice_filename language_code speaker gender))"
    and load: "librosa_load lib source_audio_path (Some 24000) True = Inr (y, sr)"
    and trim: "effects_trim lib (flat y) = Inr audio"
    and sound: "\<exists>x\<in>set audio. x \<noteq> 0"
  shows "\<exists>w' ys.
           add_voice_to_vibevoice lib source_audio_path speaker language_code gender voices_dir w =
             (w', Inr (os_path_join voices_dir (voice_filename language_code speaker gender))) \<and>
           os_path_join voices_dir (voice_filename language_code speaker gender) =
             (if last voices_dir = CHR ''/''
              then voices_dir @ language_code @ ''-'' @ speaker @ ''_'' @ gender @ ''.wav''
              else voices_dir @ ''/'' @ language_code @ ''-'' @ speaker @ ''_'' @ gender @ ''.wav'') \<and>
           written_signal w' (os_path_join voices_dir (voice_filename language_code speaker gender)) =
             Some (map Finite ys, 24000) \<and>
           length ys = length audio \<and>
           np_max (map abs ys) = Inr (95 / 100)"
proof -
  let ?f = "voice_filename language_code speaker gender"
  let ?t = "os_path_join voices_dir ?f"
  have f: "take 1 ?f \<noteq> ''/''" using rel by (rule voice_filename_relative)
  have d: "voices_dir \<noteq> []" using mk by (rule os_makedirs_nonempty)
  from peak_normalize_nonsilent[OF sound] obtain peak where
    n: "peak_normalize audio = Inr (map (\<lambda>x. Finite (x / peak * (95 / 100))) audio)"
    and p: "np_max (map abs (map (\<lambda>x. x / peak * (95 / 100)) audio)) = Inr (95 / 100)"
    by blast
  let ?ys = "map (\<lambda>x. x / peak * (95 / 100)) audio"
  have n': "peak_normalize audio = Inr (map Finite ?ys)" using n by (simp add: comp_def)
  from add_voice_run[OF mk load trim n' wr] obtain w' where
    r: "add_voice_to_vibevoice lib source_audio_path speaker language_code gender voices_dir w =
          (w', Inr ?t)"
    and s: "written_signal w' ?t = Some (map Finite ?ys, 24000)"
    by blast
  have j: "?t = (if last voices_dir = CHR ''/''
              then voices_dir @ language_code @ ''-'' @ speaker @ ''_'' @ gender @ ''.wav''
              else voices_dir @ ''/'' @ language_code @ ''-'' @ speaker @ ''_'' @ gender @ ''.wav'')"
    unfolding os_path_join_plain[OF d f] by (simp add: voice_filename_def)
  have l: "length ?ys = length audio" by simp
  from r j s l p show ?thesis by blast
qed

lemma writable_voice_example: "writable example_world ''demo/voices/en-Zoe_female.wav''"
  by (simp add: writable_def example_world_def resolve_def path_components_def)

lemma importer_example_world:
  "os_makedirs example_world ''demo/voices'' = Inr example_world"
  "\<not> is_dir example_world ''demo/voices/en-Zoe_female.wav''"
  by (simp_all add: os_makedirs_def is_dir_def node_at_def resolve_def path_components_def
      example_world_def)

theorem importer_output_witness:
  "\<exists>w' ys.
     add_voice_to_vibevoice example_lib ''voice.wav'' ''Zoe'' ''en'' ''female'' ''demo/voices''
       example_world = (w', Inr ''demo/voices/en-Zoe_female.wav'') \<and>
     written_signal w' ''demo/voices/en-Zoe_female.wav'' = Some (map Finite ys, 24000) \<and>
     length ys = 5 \<and>
     np_max (map abs ys) = Inr (95 / 100)"
proof -
  have rel: "take 1 ''en'' \<noteq> ''/''" by simp
  have wr: "writable example_world
      (os_path_join ''demo/voices'' (voice_filename ''en'' ''Zoe'' ''female''))"
    unfolding voice_target_example by (rule writable_voice_example)
  have sound: "\<exists>x\<in>set [1/2, - 1, 1/4, 0, 1/2 :: real]. x \<noteq> 0" by simp
  have trim: "effects_trim example_lib (flat (Array1 [1/2, - 1, 1/4, 0, 1/2])) =
      Inr [1/2, - 1, 1/4, 0, 1/2]"
    by (simp add: trim_example)
  from importer_output[OF importer_example_world(1) rel wr load_voice_wav trim sound]
  obtain w' ys where
    "add_voice_to_vibevoice example_lib ''voice.wav'' ''Zoe'' ''en'' ''female'' ''demo/voices''
       example_world =
       (w', Inr (os_path_join ''demo/voices'' (voice_filename ''en'' ''Zoe'' ''female'')))"
    "written_signal w' (os_path_join ''demo/voices'' (voice_filename ''en'' ''Zoe'' ''female'')) =
       Some (map Finite ys, 24000)"
    "length ys = length [1/2, - 1, 1/4, 0, 1/2 :: real]"
    "np_max (map abs ys) = Inr (95 / 100)"
    by blast
  moreover from this(3) have "length ys = 5" by simp
  ultimately show ?thesis unfolding voice_target_example by blast
qed

lemma peak_normalize_voice_wav:
  "peak_normalize [1/2, - 1, 1/4, 0, 1/2] =
     Inr [Finite (19/40), Finite (- (19/20)), Finite (19/80), Finite 0, Finite (19/40)]"
  by (simp add: peak_normalize_def np_divide_def)

lemma importer_absolute_language_code:
  "\<exists>w'. add_voice_to_vibevoice example_lib ''voice.wav'' ''Zoe'' ''/tmp/en'' ''female''
          ''demo/voices'' example_world = (w', Inr ''/tmp/en-Zoe_female.wav'') \<and>
        map fst (dir_entries w' ''/tmp'') = [''en-Zoe_female.wav''] \<and>
        map fst (dir_entries w' ''demo/voices'') =
          [''en-Emma_female.wav'', ''zh-Li_bgm.MP3'', ''notes.txt'', ''en-Bob_male.wav'']"
proof -
  have t: "os_path_join ''demo/voices'' (voice_filename ''/tmp/en'' ''Zoe'' ''female'') =
      ''/tmp/en-Zoe_female.wav''"
    by (simp add: os_path_join_def voice_filename_def)
  have wr: "writable example_world
      (os_path_join ''demo/voices'' (voice_filename ''/tmp/en'' ''Zoe'' ''female''))"
    unfolding t by (simp add: writable_def example_world_def resolve_def path_components_def)
  have trim: "effects_trim example_lib (flat (Array1 [1/2, - 1, 1/4, 0, 1/2])) =
      Inr [1/2, - 1, 1/4, 0, 1/2]"
    by (simp add: trim_example)
  let ?w2 = "print_line (ProcessingAudio ''voice.wav'') example_world"
  let ?n = "[Finite (19/40), Finite (- (19/20)), Finite (19/80), Finite 0, Finite (19/40)]"
  obtain w3 where w3: "sf_write ?w2 ''/tmp/en-Zoe_female.wav'' ?n 24000 = Inr w3"
    and e1: "map fst (dir_entries w3 ''/tmp'') = [''en-Zoe_female.wav'']"
    and e2: "map fst (dir_entries w3 ''demo/voices'') =
          [''en-Emma_female.wav'', ''zh-Li_bgm.MP3'', ''notes.txt'', ''en-Bob_male.wav'']"
    by (simp add: sf_write_def print_line_def resolve_def path_components_def example_world_def
        dir_entries_def node_at_def)
  have "add_voice_to_vibevoice example_lib ''voice.wav'' ''Zoe'' ''/tmp/en'' ''female''
          ''demo/voices'' example_world =
        (print_line (SpeakerNameForScripts ''Zoe'')
           (print_line (VoiceAdded ''/tmp/en-Zoe_female.wav'') w3), Inr ''/tmp/en-Zoe_female.wav'')"
    by (simp add: add_voice_to_vibevoice_def importer_example_world(1) load_voice_wav trim_example
        peak_normalize_voice_wav t w3 Let_def)
  moreover have "dir_entries (print_line m w) p = dir_entries w p" for m w p
    by (simp add: dir_entries_def)
  ultimately show ?thesis using e1 e2 by simp
qed

lemma importer_speaker_with_slash:
  "snd (add_voice_to_vibevoice example_lib ''voice.wav'' ''x/y'' ''en'' ''female''
          ''demo/voices'' example_world) = Inl LibsndfileError"
proof -
  have t: "os_path_join ''demo/voices'' (voice_filename ''en'' ''x/y'' ''female'') =
      ''demo/voices/en-x/y_female.wav''"
    by (simp add: os_path_join_def voice_filename_def)
  have "\<not> writable (print_line (ProcessingAudio ''voice.wav'') example_world)
      ''demo/voices/en-x/y_female.wav''"
    by (simp add: writable_def example_world_def resolve_def path_components_def)
  then have "sf_write (print_line (ProcessingAudio ''voice.wav'') example_world)
      ''demo/voices/en-x/y_female.wav'' d 24000 = Inl LibsndfileError" for d
    by (rule sf_write_fail)
  then show ?thesis
    by (simp add: add_voice_to_vibevoice_def importer_example_world(1) load_voice_wav trim_example
        peak_normalize_voice_wav t Let_def)
qed

theorem importer_output_counterexample:
  "snd (add_voice_to_vibevoice example_lib ''voice.wav'' ''x/y'' ''en'' ''female''
          ''demo/voices'' example_world) = Inl LibsndfileError \<and>
   (\<exists>w'. add_voice_to_vibevoice example_lib ''voice.wav'' ''Zoe'' ''/tmp/en'' ''female''
          ''demo/voices'' example_world = (w', Inr ''/tmp/en-Zoe_female.wav'') \<and>
        map fst (dir_entries w' ''/tmp'') = [''en-Zoe_female.wav''] \<and>
        map fst (dir_entries w' ''demo/voices'') =
          [''en-Emma_female.wav'', ''zh-Li_bgm.MP3'', ''notes.txt'', ''en-Bob_male.wav''])"
  using importer_speaker_with_slash importer_absolute_language_code by blast

section \<open>The divisor of the peak normalization\<close>

text \<open>
  Claim C8.  The divisor of the normalization is the largest absolute sample.  If the signal
  that reaches the division (the trimmed audio in the importer, the mix in the mixer) has a
  sample other than zero, the divisor is not zero and every normalized sample is finite.  If
  the signal is not empty and all zero, the divisor is zero and nothing guards the division:
  every sample becomes NaN, and both operations go on to write that signal and return the
  path.  (An empty signal never reaches the division: its maximum raises \<open>ValueError\<close>.)
\<close>

theorem normalization_divisor:
  "((\<exists>x\<in>set a. x \<noteq> 0) \<longrightarrow>
      (\<exists>peak. np_max (map abs a) = Inr peak \<and> peak \<noteq> 0 \<and>
         peak_normalize a = Inr (map (\<lambda>x. Finite (x / peak * (95 / 100))) a))) \<and>
   (a \<noteq> [] \<and> (\<forall>x\<in>set a. x = 0) \<longrightarrow>
      np_max (map abs a) = Inr 0 \<and> peak_normalize a = Inr (replicate (length a) NaN)) \<and>
   peak_normalize [] = Inl ValueError \<and>
   (os_makedirs w voices_dir = Inr w1 \<and>
    librosa_load lib source_audio_path (Some 24000) True = Inr (y, sr) \<and>
    effects_trim lib (flat y) = Inr a \<and> a \<noteq> [] \<and> (\<forall>x\<in>set a. x = 0) \<and>
    writable w1 (os_path_join voices_dir (voice_filename language_code speaker gender)) \<longrightarrow>
      (\<exists>w'. add_voice_to_vibevoice lib source_audio_path speaker language_code gender
               voices_dir w =
               (w', Inr (os_path_join voices_dir (voice_filename language_code speaker gender))) \<and>
            written_signal w'
               (os_path_join voices_dir (voice_filename language_code speaker gender)) =
               Some (replicate (length a) NaN, 24000))) \<and>
   (librosa_load lib voice_path (Some 24000) True = Inr (v, sr1) \<and>
    librosa_load lib music_path (Some 24000) True = Inr (m, sr2) \<and>
    match_lengths (flat v) (flat m) = Inr music \<and>
    mix (flat v) music music_volume = Inr a \<and> a \<noteq> [] \<and> (\<forall>x\<in>set a. x = 0) \<and>
    writable w (os_path_join voices_dir (bgm_filename language_code speaker)) \<longrightarrow>
      (\<exists>w'. create_voice_with_background_music lib voice_path music_path speaker language_code
               voices_dir music_volume w =
               (w', Inr (os_path_join voices_dir (bgm_filename language_code speaker))) \<and>
            written_signal w' (os_path_join voices_dir (bgm_filename language_code speaker)) =
               Some (replicate (length a) NaN, 24000)))"
proof (intro conjI impI)
  assume "\<exists>x\<in>set a. x \<noteq> 0"
  from peak_normalize_nonsilent[OF this]
  show "\<exists>peak. np_max (map abs a) = Inr peak \<and> peak \<noteq> 0 \<and>
         peak_normalize a = Inr (map (\<lambda>x. Finite (x / peak * (95 / 100))) a)"
    by force
next
  assume "a \<noteq> [] \<and> (\<forall>x\<in>set a. x = 0)"
  then show "np_max (map abs a) = Inr 0" by (simp add: peak_normalize_silent)
next
  assume "a \<noteq> [] \<and> (\<forall>x\<in>set a. x = 0)"
  then show "peak_normalize a = Inr (replicate (length a) NaN)"
    by (simp add: peak_normalize_silent)
next
  show "peak_normalize [] = Inl ValueError" by (rule peak_normalize_empty)
next
  assume h: "os_makedirs w voices_dir = Inr w1 \<and>
    librosa_load lib source_audio_path (Some 24000) True = Inr (y, sr) \<and>
    effects_trim lib (flat y) = Inr a \<and> a \<noteq> [] \<and> (\<forall>x\<in>set a. x = 0) \<and>
    writable w1 (os_path_join voices_dir (voice_filename language_code speaker gender))"
  then have n: "peak_normalize a = Inr (replicate (length a) NaN)"
    by (simp add: peak_normalize_silent)
  from h have mk: "os_makedirs w voices_dir = Inr w1"
    and load: "librosa_load lib source_audio_path (Some 24000) True = Inr (y, sr)"
    and trim: "effects_trim lib (flat y) = Inr a"
    and wr: "writable w1 (os_path_join voices_dir (voice_filename language_code speaker gender))"
    by simp_all
  from add_voice_run[OF mk load trim n wr]
  show "\<exists>w'. add_voice_to_vibevoice lib source_audio_path speaker language_code gender
               voices_dir w =
               (w', Inr (os_path_join voices_dir (voice_filename language_code speaker gender))) \<and>
            written_signal w'
               (os_path_join voices_dir (voice_filename language_code speaker gender)) =
               Some (replicate (length a) NaN, 24000)"
    by blast
next
  assume h: "librosa_load lib voice_path (Some 24000) True = Inr (v, sr1) \<and>
    librosa_load lib music_path (Some 24000) True = Inr (m, sr2) \<and>
    match_lengths (flat v) (flat m) = Inr music \<and>
    mix (flat v) music music_volume = Inr a \<and> a \<noteq> [] \<and> (\<forall>x\<in>set a. x = 0) \<and>
    writable w (os_path_join voices_dir (bgm_filename language_code speaker))"
  then have n: "peak_normalize a = Inr (replicate (length a) NaN)"
    by (simp add: peak_normalize_silent)
  from h have lv: "librosa_load lib voice_path (Some 24000) True = Inr (v, sr1)"
    and lm: "librosa_load lib music_path (Some 24000) True = Inr (m, sr2)"
    and ml: "match_lengths (flat v) (flat m) = Inr music"
    and mx: "mix (flat v) music music_volume = Inr a"
    and wr: "writable w (os_path_join voices_dir (bgm_filename language_code speaker))"
    by simp_all
  from mixer_run_ok[OF lv lm ml mx n wr]
  show "\<exists>w'. create_voice_with_background_music lib voice_path music_path speaker language_code
               voices_dir music_volume w =
               (w', Inr (os_path_join voices_dir (bgm_filename language_code speaker))) \<and>
            written_signal w' (os_path_join voices_dir (bgm_filename language_code speaker)) =
               Some (replicate (length a) NaN, 24000)"
    by blast
qed

theorem normalization_divisor_witness:
  "peak_normalize [1/2, - 1] = Inr [Finite (19/40), Finite (- (19/20))] \<and>
   peak_normalize [0, 0, 0] = Inr [NaN, NaN, NaN] \<and>
   (\<exists>w'. add_voice_to_vibevoice example_lib ''silence.wav'' ''Zoe'' ''en'' ''female''
            ''demo/voices'' example_world = (w', Inr ''demo/voices/en-Zoe_female.wav'') \<and>
          written_signal w' ''demo/voices/en-Zoe_female.wav'' = Some ([NaN, NaN, NaN], 24000)) \<and>
   (\<exists>w'. create_voice_with_background_music example_lib ''silence.wav'' ''silence.wav''
            ''Emma'' ''en'' ''demo/voices'' (1/10) example_world =
            (w', Inr ''demo/voices/en-Emma_bgm.wav'') \<and>
          written_signal w' ''demo/voices/en-Emma_bgm.wav'' = Some ([NaN, NaN, NaN], 24000))"
proof -
  let ?Z = "[0, 0, 0] :: real list"
  have z: "?Z \<noteq> [] \<and> (\<forall>x\<in>set ?Z. x = 0)" by simp
  have 1: "peak_normalize [1/2, - 1] = Inr [Finite (19/40), Finite (- (19/20))]"
  proof -
    have "\<exists>x\<in>set [1/2, - 1 :: real]. x \<noteq> 0" by simp
    with normalization_divisor[of "[1/2, - 1]"] obtain peak where
      p: "np_max (map abs [1/2, - 1]) = Inr peak"
      and n: "peak_normalize [1/2, - 1] = Inr (map (\<lambda>x. Finite (x / peak * (95 / 100))) [1/2, - 1])"
      by blast
    have "np_max (map abs [1/2, - 1]) = Inr 1" by simp
    with p have "peak = 1" by simp
    with n show ?thesis by simp
  qed
  have 2: "peak_normalize ?Z = Inr [NaN, NaN, NaN]"
  proof -
    from normalization_divisor[of ?Z] z
    have "peak_normalize ?Z = Inr (replicate (length ?Z) NaN)" by blast
    then show ?thesis by (simp add: numeral_3_eq_3)
  qed
  have r: "replicate (length ?Z) NaN = [NaN, NaN, NaN]" by (simp add: numeral_3_eq_3)
  have 3: "\<exists>w'. add_voice_to_vibevoice example_lib ''silence.wav'' ''Zoe'' ''en'' ''female''
            ''demo/voices'' example_world = (w', Inr ''demo/voices/en-Zoe_female.wav'') \<and>
          written_signal w' ''demo/voices/en-Zoe_female.wav'' = Some ([NaN, NaN, NaN], 24000)"
  proof -
    have h: "os_makedirs example_world ''demo/voices'' = Inr example_world \<and>
      librosa_load example_lib ''silence.wav'' (Some 24000) True = Inr (Array1 ?Z, 24000) \<and>
      effects_trim example_lib (flat (Array1 ?Z)) = Inr ?Z \<and> ?Z \<noteq> [] \<and>
      (\<forall>x\<in>set ?Z. x = 0) \<and>
      writable example_world (os_path_join ''demo/voices'' (voice_filename ''en'' ''Zoe'' ''female''))"
      by (simp add: importer_example_world load_silence_wav trim_example voice_target_example
          writable_voice_example)
    from normalization_divisor[of ?Z example_world "''demo/voices''" example_world example_lib
        "''silence.wav''" "Array1 ?Z" 24000 "''en''" "''Zoe''" "''female''"] h
    show ?thesis unfolding voice_target_example r by blast
  qed
  have 4: "\<exists>w'. create_voice_with_background_music example_lib ''silence.wav'' ''silence.wav''
            ''Emma'' ''en'' ''demo/voices'' (1/10) example_world =
            (w', Inr ''demo/voices/en-Emma_bgm.wav'') \<and>
          written_signal w' ''demo/voices/en-Emma_bgm.wav'' = Some ([NaN, NaN, NaN], 24000)"
  proof -
    have h: "librosa_load example_lib ''silence.wav'' (Some 24000) True = Inr (Array1 ?Z, 24000) \<and>
      librosa_load example_lib ''silence.wav'' (Some 24000) True = Inr (Array1 ?Z, 24000) \<and>
      match_lengths (flat (Array1 ?Z)) (flat (Array1 ?Z)) = Inr ?Z \<and>
      mix (flat (Array1 ?Z)) ?Z (1/10) = Inr ?Z \<and> ?Z \<noteq> [] \<and> (\<forall>x\<in>set ?Z. x = 0) \<and>
      writable example_world (os_path_join ''demo/voices'' (bgm_filename ''en'' ''Emma''))"
      by (simp add: load_silence_wav bgm_target_example writable_bgm_example match_lengths_def
          np_tile_def mix_def np_add_def)
    from normalization_divisor[where a = ?Z and w = example_world and voices_dir = "''demo/voices''"
        and lib = example_lib and voice_path = "''silence.wav''" and music_path = "''silence.wav''"
        and v = "Array1 ?Z" and m = "Array1 ?Z" and ?sr1.0 = 24000 and ?sr2.0 = 24000
        and music = ?Z and music_volume = "1/10" and language_code = "''en''"
        and speaker = "''Emma''"] h
    show ?thesis unfolding bgm_target_example r by blast
  qed
  from 1 2 3 4 show ?thesis by blast
qed

section \<open>Who creates the voices directory\<close>














section \<open>The lister on a directory\<close>

lemma lookup_append:
  "lookup n (cs @ ds) = (case lookup n cs of None \<Rightarrow> None | Some n' \<Rightarrow> lookup n' ds)"
  by (induction n cs rule: lookup.induct) (auto split: option.splits)

lemma print_line_getsize [simp]:
  "os_path_getsize (print_line m w) p = os_path_getsize w p"
  by (simp add: os_path_getsize_def)

lemma node_at_nonempty: "node_at w p = Some n \<Longrightarrow> p \<noteq> []"
  by (auto simp: node_at_def)

lemma getsize_entry:
  assumes d: "node_at w d = Some (Dir es)"
    and v: "valid_name f"
    and f: "f \<in> fst ` set es"
  shows "os_path_getsize w (os_path_join d f) = Inr (entry_size es f)"
proof -
  have dn: "d \<noteq> []" using d by (rule node_at_nonempty)
  have r: "resolve w (os_path_join d f) = resolve w d @ [f]"
    using dn v by (intro resolve_join_name) (simp_all add: valid_name_def)
  have j: "os_path_join d f \<noteq> []" using dn by (auto simp: os_path_join_def)
  from f obtain n where n: "map_of es f = Some n"
    by (cases "map_of es f") (auto simp: map_of_eq_None_iff)
  have "lookup (fs_root w) (resolve w d) = Some (Dir es)"
    using d dn by (simp add: node_at_def)
  then have "node_at w (os_path_join d f) = Some n"
    using j n by (simp add: node_at_def r lookup_append)
  then show ?thesis
    by (cases n) (simp_all add: os_path_getsize_def entry_size_def n)
qed

lemma voices_loop_ok:
  assumes "\<And>f. f \<in> set fs \<Longrightarrow> os_path_getsize w (os_path_join d f) = Inr (sz f)"
  shows "\<exists>w'. voices_loop d fs acc w = (w', Inr (acc @ map (\<lambda>f. voice_entry f (sz f)) fs)) \<and>
           fs_root w' = fs_root w \<and> cwd w' = cwd w"
  using assms
proof (induction fs arbitrary: acc w)
  case Nil
  then show ?case by simp
next
  case (Cons f fs)
  let ?info = "voice_entry f (sz f)"
  let ?w = "print_line (VoiceRow (speaker_name ?info) f (sz f div 1024) (has_bgm ?info)) w"
  have g: "os_path_getsize w (os_path_join d f) = Inr (sz f)" using Cons.prems by simp
  have "\<And>f'. f' \<in> set fs \<Longrightarrow> os_path_getsize ?w (os_path_join d f') = Inr (sz f')"
    using Cons.prems by simp
  from Cons.IH[OF this, of "acc @ [?info]"] obtain w' where
    "voices_loop d fs (acc @ [?info]) ?w =
       (w', Inr ((acc @ [?info]) @ map (\<lambda>f. voice_entry f (sz f)) fs))"
    "fs_root w' = fs_root ?w" "cwd w' = cwd ?w"
    by blast
  then show ?case by (simp add: g Let_def)
qed

lemma lister_on_dir:
  assumes d: "node_at w d = Some (Dir es)"
    and v: "list_all valid_name (map fst es)"
  shows "\<exists>w'. list_available_voices d w =
           (w', Inr (map (\<lambda>f. voice_entry f (entry_size es f))
                       (sort (filter is_voice_file (map fst es))))) \<and>
           fs_root w' = fs_root w \<and> cwd w' = cwd w"
proof -
  let ?files = "filter is_voice_file (map fst es)"
  let ?w1 = "print_line Rule (print_line (AvailableVoices (length ?files)) w)"
  have ex: "os_path_exists w d" using d by (simp add: os_path_exists_def)
  have ls: "os_listdir w d = Inr (map fst es)" using d by (simp add: os_listdir_def)
  have "os_path_getsize ?w1 (os_path_join d f) = Inr (entry_size es f)"
    if "f \<in> set (sort ?files)" for f
  proof -
    from that have "f \<in> fst ` set es" by auto
    moreover from this v have "valid_name f" by (auto simp: list_all_iff)
    ultimately show ?thesis using getsize_entry[OF d] by simp
  qed
  from voices_loop_ok[of "sort ?files" ?w1 d "entry_size es" "[]", OF this] obtain w' where
    "voices_loop d (sort ?files) [] ?w1 =
       (w', Inr (map (\<lambda>f. voice_entry f (entry_size es f)) (sort ?files)))"
    "fs_root w' = fs_root w" "cwd w' = cwd w"
    by auto
  then show ?thesis by (simp add: list_available_voices_def ex ls Let_def)
qed

lemma file_voice_entry [simp]: "file (voice_entry f sz) = f"
  by (simp add: voice_entry_def Let_def)


lemma voices_example:
  "node_at example_world ''demo/voices'' =
     Some (Dir [(''en-Emma_female.wav'', File 96044 None), (''zh-Li_bgm.MP3'', File 2048 None),
                (''notes.txt'', File 12 None), (''en-Bob_male.wav'', File 1023 None)])"
  by (simp add: node_at_def resolve_def path_components_def example_world_def)

lemma sort_example:
  "sort [''en-Emma_female.wav'', ''zh-Li_bgm.MP3'', ''en-Bob_male.wav''] =
     [''en-Bob_male.wav'', ''en-Emma_female.wav'', ''zh-Li_bgm.MP3'']"
  by code_simp





section \<open>From the importer to the lister\<close>

lemma mkdirs_lookup:
  "mkdirs n cs = Inr n' \<Longrightarrow>
     lookup n' cs = (case lookup n cs of Some (Dir es) \<Rightarrow> Some (Dir es) | _ \<Rightarrow> Some (Dir []))"
proof (induction n cs arbitrary: n' rule: mkdirs.induct)
  case (4 es c cs)
  then show ?case
    by (auto simp: map_of_update lookup_empty_Dir
        split: option.splits sum.splits node.splits if_splits)
qed auto

lemma put_file_parent:
  "put_file n (cs @ [c]) f = Inr n' \<Longrightarrow>
     \<exists>es. lookup n cs = Some (Dir es) \<and> lookup n' cs = Some (Dir (AList.update c f es))"
proof (induction cs arbitrary: n n')
  case Nil
  then show ?case
    by (cases n) (auto split: option.splits node.splits)
next
  case (Cons a cs)
  obtain x xs where x: "cs @ [c] = x # xs" by (cases "cs @ [c]") auto
  from Cons.prems obtain es where n: "n = Dir es"
    by (cases n) (auto simp: x)
  from Cons.prems obtain sub sub' where
    s: "map_of es a = Some sub" "put_file sub (cs @ [c]) f = Inr sub'"
       "n' = Dir (AList.update a sub' es)"
    by (auto simp: n x split: option.splits sum.splits)
  from Cons.IH[OF s(2)] obtain es' where
    "lookup sub cs = Some (Dir es')" "lookup sub' cs = Some (Dir (AList.update c f es'))"
    by blast
  then show ?case by (simp add: n s map_of_update)
qed

lemma add_voice_returns:
  assumes "add_voice_to_vibevoice lib source_audio_path speaker language_code gender voices_dir w
      = (w', Inr p)"
  shows "\<exists>w1 normalized w3.
           os_makedirs w voices_dir = Inr w1 \<and>
           sf_write (print_line (ProcessingAudio source_audio_path) w1)
             (os_path_join voices_dir (voice_filename language_code speaker gender))
             normalized 24000 = Inr w3 \<and>
           fs_root w' = fs_root w3 \<and> cwd w' = cwd w3 \<and>
           p = os_path_join voices_dir (voice_filename language_code speaker gender)"
  using assms
  by (fastforce simp: add_voice_to_vibevoice_def Let_def split: sum.splits prod.splits)

lemma voice_filename_valid:
  assumes "CHR ''/'' \<notin> set language_code" "CHR ''/'' \<notin> set speaker" "CHR ''/'' \<notin> set gender"
  shows "valid_name (voice_filename language_code speaker gender)"
proof -
  let ?f = "voice_filename language_code speaker gender"
  have "6 \<le> length ?f" by (simp add: voice_filename_def)
  then have "?f \<noteq> []" "?f \<noteq> ''.''" "?f \<noteq> ''..''" by auto
  moreover have "CHR ''/'' \<notin> set ?f" using assms by (simp add: voice_filename_def)
  ultimately show ?thesis by (simp add: valid_name_def)
qed

lemma importer_then_lister:
  assumes run: "add_voice_to_vibevoice lib source_audio_path speaker language_code gender
      voices_dir w = (w', Inr p)"
    and name: "valid_name (voice_filename language_code speaker gender)"
    and wf: "list_all valid_name (map fst (dir_entries w voices_dir))"
  shows "p = os_path_join voices_dir (voice_filename language_code speaker gender) \<and>
         (\<exists>w'' es. list_available_voices voices_dir w' =
            (w'', Inr (map (\<lambda>f. voice_entry f (entry_size es f))
                         (sort (filter is_voice_file (map fst es))))) \<and>
            voice_filename language_code speaker gender \<in> fst ` set es)"
proof -
  let ?f = "voice_filename language_code speaker gender"
  let ?t = "os_path_join voices_dir ?f"
  from add_voice_returns[OF run] obtain w1 normalized w3 where
    mk: "os_makedirs w voices_dir = Inr w1"
    and wr: "sf_write (print_line (ProcessingAudio source_audio_path) w1) ?t normalized 24000
               = Inr w3"
    and same: "fs_root w' = fs_root w3" "cwd w' = cwd w3"
    and p: "p = ?t"
    by blast
  let ?file = "File (wav_bytes (length normalized)) (Some (normalized, 24000))"
  let ?cs = "resolve w voices_dir"
  have d: "voices_dir \<noteq> []" using mk by (rule os_makedirs_nonempty)
  have res1: "resolve w1 q = resolve w q" for q using os_makedirs_ok(5)[OF mk] .
  have rj: "resolve w ?t = ?cs @ [?f]"
    using d name by (intro resolve_join_name) (simp_all add: valid_name_def)
  from mk obtain r1 where r1: "mkdirs (fs_root w) ?cs = Inr r1" "w1 = w\<lparr>fs_root := r1\<rparr>"
    by (auto simp: os_makedirs_def split: if_splits sum.splits)
  from wr obtain r3 where r3: "put_file r1 (?cs @ [?f]) ?file = Inr r3" "fs_root w3 = r3"
    and c3: "cwd w3 = cwd w"
    by (auto simp: sf_write_def r1(2) resolve_def[symmetric] res1[unfolded r1(2)] rj
        split: if_splits sum.splits)
  from put_file_parent[OF r3(1)] obtain es1 where
    e1: "lookup r1 ?cs = Some (Dir es1)"
    and e3: "lookup r3 ?cs = Some (Dir (AList.update ?f ?file es1))"
    by blast
  let ?es = "AList.update ?f ?file es1"
  have "map fst es1 = map fst (dir_entries w voices_dir)"
    using mkdirs_lookup[OF r1(1)] e1 d
    by (auto simp: dir_entries_def node_at_def split: option.splits node.splits)
  then have v1: "list_all valid_name (map fst es1)" using wf by simp
  have keys: "fst ` set ?es = insert ?f (fst ` set es1)" by (simp add: dom_update)
  have v: "list_all valid_name (map fst ?es)"
    using v1 name keys by (simp add: list_all_iff)
  have "resolve w' voices_dir = ?cs" by (simp add: resolve_def same c3)
  then have n: "node_at w' voices_dir = Some (Dir ?es)"
    using d e3 by (simp add: node_at_def same r3(2))
  from lister_on_dir[OF n v] obtain w'' where
    "list_available_voices voices_dir w' =
       (w'', Inr (map (\<lambda>f. voice_entry f (entry_size ?es f))
                    (sort (filter is_voice_file (map fst ?es)))))"
    by blast
  moreover have "?f \<in> fst ` set ?es" using keys by simp
  ultimately show ?thesis using p by blast
qed

lemma speaker_names_example:
  "speaker_name (voice_entry ''en-Bob_male.wav'' sz) = ''Bob''"
  "speaker_name (voice_entry ''en-Emma_female.wav'' sz) = ''Emma''"
  "speaker_name (voice_entry ''zh-Li_bgm.MP3'' sz) = ''Li''"
  "speaker_name (voice_entry ''y_female.wav'' sz) = ''y''"
  "speaker_name (voice_entry ''en-Mary_Ann_female.wav'' sz) = ''Mary''"
  by code_simp+

lemma in_set_mapI: "x \<in> set xs \<Longrightarrow> g x \<in> set (map g xs)"
  by simp

lemma dir_entries_print_line [simp]: "dir_entries (print_line m w) p = dir_entries w p"
  by (simp add: dir_entries_def)

lemma voices_entries_example:
  "list_all valid_name (map fst (dir_entries example_world ''demo/voices''))"
  by (simp add: dir_entries_def voices_example valid_name_def)

text \<open>
  Claim C10, amended.  Take a speaker name, a language code and a gender tag that contain
  neither \<open>_\<close> nor \<open>-\<close> nor \<open>/\<close>, and a run of the importer that returns a path.  That path
  is the conventioned file in the voices directory, and the lister, run on that directory
  afterwards, returns a record for this file; every record it returns for this file has
  exactly the original speaker name.  (The directory's other entries are assumed to have
  names a directory can hold.)  For a speaker name with a \<open>_\<close> in it the name that comes
  back differs: the importer's file for \<open>Mary_Ann\<close> is listed with the speaker \<open>Mary\<close>.
\<close>

theorem importer_lister_round_trip:
  "(CHR ''_'' \<notin> set speaker \<and> CHR ''-'' \<notin> set speaker \<and> CHR ''/'' \<notin> set speaker \<and>
    CHR ''_'' \<notin> set language_code \<and> CHR ''-'' \<notin> set language_code \<and>
    CHR ''/'' \<notin> set language_code \<and>
    CHR ''_'' \<notin> set gender \<and> CHR ''-'' \<notin> set gender \<and> CHR ''/'' \<notin> set gender \<and>
    add_voice_to_vibevoice lib source_audio_path speaker language_code gender voices_dir w =
      (w', Inr p) \<and>
    list_all valid_name (map fst (dir_entries w voices_dir)) \<longrightarrow>
      p = os_path_join voices_dir (voice_filename language_code speaker gender) \<and>
      (\<exists>w'' infos.
         list_available_voices voices_dir w' = (w'', Inr infos) \<and>
         (\<exists>info\<in>set infos. file info = voice_filename language_code speaker gender) \<and>
         (\<forall>info\<in>set infos.
            file info = voice_filename language_code speaker gender \<longrightarrow>
              speaker_name info = speaker))) \<and>
   (\<exists>w' w'' infos.
      add_voice_to_vibevoice example_lib ''voice.wav'' ''Mary_Ann'' ''en'' ''female''
        ''demo/voices'' example_world = (w', Inr ''demo/voices/en-Mary_Ann_female.wav'') \<and>
      list_available_voices ''demo/voices'' w' = (w'', Inr infos) \<and>
      (\<exists>info\<in>set infos. file info = ''en-Mary_Ann_female.wav'' \<and> speaker_name info = ''Mary''))"
proof (intro conjI impI)
  let ?f = "voice_filename language_code speaker gender"
  assume h: "CHR ''_'' \<notin> set speaker \<and> CHR ''-'' \<notin> set speaker \<and> CHR ''/'' \<notin> set speaker \<and>
    CHR ''_'' \<notin> set language_code \<and> CHR ''-'' \<notin> set language_code \<and>
    CHR ''/'' \<notin> set language_code \<and>
    CHR ''_'' \<notin> set gender \<and> CHR ''-'' \<notin> set gender \<and> CHR ''/'' \<notin> set gender \<and>
    add_voice_to_vibevoice lib source_audio_path speaker language_code gender voices_dir w =
      (w', Inr p) \<and>
    list_all valid_name (map fst (dir_entries w voices_dir))"
  then have run: "add_voice_to_vibevoice lib source_audio_path speaker language_code gender
      voices_dir w = (w', Inr p)"
    and wf: "list_all valid_name (map fst (dir_entries w voices_dir))"
    and name: "valid_name ?f"
    by (simp_all add: voice_filename_valid)
  from h have parse: "speaker_name (voice_entry ?f sz) = speaker" for sz
    by (intro voice_filename_round_trip) simp_all
  from importer_then_lister[OF run name wf] obtain w'' es where
    p: "p = os_path_join voices_dir ?f"
    and l: "list_available_voices voices_dir w' =
       (w'', Inr (map (\<lambda>f. voice_entry f (entry_size es f))
                    (sort (filter is_voice_file (map fst es)))))"
    and f: "?f \<in> fst ` set es"
    by blast
  let ?infos = "map (\<lambda>f. voice_entry f (entry_size es f)) (sort (filter is_voice_file (map fst es)))"
  have "?f \<in> set (sort (filter is_voice_file (map fst es)))"
    using f is_voice_file_voice_filename[of language_code speaker gender] by simp
  then have "voice_entry ?f (entry_size es ?f) \<in> set ?infos" 
    by (rule in_set_mapI[where g = "\<lambda>f. voice_entry f (entry_size es f)"])
  then have one: "\<exists>info\<in>set ?infos. file info = ?f"
    by (intro bexI[of _ "voice_entry ?f (entry_size es ?f)"]) simp_all
  have all: "\<forall>info\<in>set ?infos. file info = ?f \<longrightarrow> speaker_name info = speaker"
    using parse by auto
  show "p = os_path_join voices_dir ?f" by (rule p)
  from l one all
  show "\<exists>w'' infos.
         list_available_voices voices_dir w' = (w'', Inr infos) \<and>
         (\<exists>info\<in>set infos. file info = ?f) \<and>
         (\<forall>info\<in>set infos. file info = ?f \<longrightarrow> speaker_name info = speaker)"
    by blast
next
  let ?f = "voice_filename ''en'' ''Mary_Ann'' ''female''"
  have t: "os_path_join ''demo/voices'' ?f = ''demo/voices/en-Mary_Ann_female.wav''"
    and fn: "?f = ''en-Mary_Ann_female.wav''"
    by (simp_all add: os_path_join_def voice_filename_def)
  have wr: "writable example_world (os_path_join ''demo/voices'' ?f)"
    unfolding t by (simp add: writable_def example_world_def resolve_def path_components_def)
  have trim: "effects_trim example_lib (flat (Array1 [1/2, - 1, 1/4, 0, 1/2])) =
      Inr [1/2, - 1, 1/4, 0, 1/2]"
    by (simp add: trim_example)
  from add_voice_run[OF importer_example_world(1) load_voice_wav trim peak_normalize_voice_wav wr]
  obtain w' where run: "add_voice_to_vibevoice example_lib ''voice.wav'' ''Mary_Ann'' ''en''
      ''female'' ''demo/voices'' example_world = (w', Inr (os_path_join ''demo/voices'' ?f))"
    by blast
  have name: "valid_name ?f" by (simp add: voice_filename_valid)
  from importer_then_lister[OF run name voices_entries_example] obtain w'' es where
    l: "list_available_voices ''demo/voices'' w' =
       (w'', Inr (map (\<lambda>f. voice_entry f (entry_size es f))
                    (sort (filter is_voice_file (map fst es)))))"
    and f: "?f \<in> fst ` set es"
    by blast
  let ?infos = "map (\<lambda>f. voice_entry f (entry_size es f)) (sort (filter is_voice_file (map fst es)))"
  have "?f \<in> set (sort (filter is_voice_file (map fst es)))"
    using f is_voice_file_voice_filename[of "''en''" "''Mary_Ann''" "''female''"] by simp
  then have "voice_entry ?f (entry_size es ?f) \<in> set ?infos" 
    by (rule in_set_mapI[where g = "\<lambda>f. voice_entry f (entry_size es f)"])
  then have "\<exists>info\<in>set ?infos. file info = ''en-Mary_Ann_female.wav'' \<and> speaker_name info = ''Mary''"
    by (intro bexI[of _ "voice_entry ?f (entry_size es ?f)"])
       (simp_all add: fn speaker_names_example)
  with run l show "\<exists>w' w'' infos.
      add_voice_to_vibevoice example_lib ''voice.wav'' ''Mary_Ann'' ''en'' ''female''
        ''demo/voices'' example_world = (w', Inr ''demo/voices/en-Mary_Ann_female.wav'') \<and>
      list_available_voices ''demo/voices'' w' = (w'', Inr infos) \<and>
      (\<exists>info\<in>set infos. file info = ''en-Mary_Ann_female.wav'' \<and> speaker_name info = ''Mary'')"
    unfolding t by blast
qed

theorem importer_lister_round_trip_witness:
  "\<exists>w' w'' infos.
     add_voice_to_vibevoice example_lib ''voice.wav'' ''Zoe'' ''en'' ''female'' ''demo/voices''
       example_world = (w', Inr ''demo/voices/en-Zoe_female.wav'') \<and>
     list_available_voices ''demo/voices'' w' = (w'', Inr infos) \<and>
     (\<exists>info\<in>set infos. file info = ''en-Zoe_female.wav'' \<and> speaker_name info = ''Zoe'')"
proof -
  let ?f = "voice_filename ''en'' ''Zoe'' ''female''"
  have fn: "?f = ''en-Zoe_female.wav''" by (simp add: voice_filename_def)
  have wr: "writable example_world (os_path_join ''demo/voices'' ?f)"
    unfolding voice_target_example by (rule writable_voice_example)
  have trim: "effects_trim example_lib (flat (Array1 [1/2, - 1, 1/4, 0, 1/2])) =
      Inr [1/2, - 1, 1/4, 0, 1/2]"
    by (simp add: trim_example)
  from add_voice_run[OF importer_example_world(1) load_voice_wav trim peak_normalize_voice_wav wr]
  obtain w' where run: "add_voice_to_vibevoice example_lib ''voice.wav'' ''Zoe'' ''en''
      ''female'' ''demo/voices'' example_world = (w', Inr (os_path_join ''demo/voices'' ?f))"
    by blast
  have h: "CHR ''_'' \<notin> set ''Zoe'' \<and> CHR ''-'' \<notin> set ''Zoe'' \<and> CHR ''/'' \<notin> set ''Zoe'' \<and>
    CHR ''_'' \<notin> set ''en'' \<and> CHR ''-'' \<notin> set ''en'' \<and> CHR ''/'' \<notin> set ''en'' \<and>
    CHR ''_'' \<notin> set ''female'' \<and> CHR ''-'' \<notin> set ''female'' \<and> CHR ''/'' \<notin> set ''female''"
    by simp
  from importer_lister_round_trip[where speaker = "''Zoe''" and language_code = "''en''"
      and gender = "''female''" and lib = example_lib and source_audio_path = "''voice.wav''"
      and voices_dir = "''demo/voices''" and w = example_world and w' = w'
      and p = "os_path_join ''demo/voices'' ?f"] h run voices_entries_example
  obtain w'' infos where
    l: "list_available_voices ''demo/voices'' w' = (w'', Inr infos)"
    and one: "\<exists>info\<in>set infos. file info = ?f"
    and all: "\<forall>info\<in>set infos. file info = ?f \<longrightarrow> speaker_name info = ''Zoe''"
    by blast
  from one all have "\<exists>info\<in>set infos. file info = ''en-Zoe_female.wav'' \<and> speaker_name info = ''Zoe''"
    unfolding fn by blast
  with run l show ?thesis unfolding voice_target_example by blast
qed

lemma filter_example_sub:
  "filter is_voice_file
     [''en-Emma_female.wav'', ''zh-Li_bgm.MP3'', ''notes.txt'', ''en-Bob_male.wav'', ''en-x'']
     = [''en-Emma_female.wav'', ''zh-Li_bgm.MP3'', ''en-Bob_male.wav'']"
  "filter is_voice_file [''y_female.wav''] = [''y_female.wav'']"
  by code_simp+

theorem importer_lister_round_trip_counterexample:
  "CHR ''_'' \<notin> set ''x/y'' \<and> CHR ''-'' \<notin> set ''x/y'' \<and>
   (\<exists>w' w'' w''' infos infos'.
      add_voice_to_vibevoice example_lib ''voice.wav'' ''x/y'' ''en'' ''female'' ''demo/voices''
        example_world_sub = (w', Inr ''demo/voices/en-x/y_female.wav'') \<and>
      list_available_voices ''demo/voices'' w' = (w'', Inr infos) \<and>
      map speaker_name infos = [''Bob'', ''Emma'', ''Li''] \<and>
      list_available_voices ''demo/voices/en-x'' w' = (w''', Inr infos') \<and>
      map speaker_name infos' = [''y''])"
proof -
  let ?n = "[Finite (19/40), Finite (- (19/20)), Finite (19/80), Finite 0, Finite (19/40)]"
  let ?new = "File 54 (Some (?n, 24000))"
  let ?sub = "[(''y_female.wav'', ?new)]"
  let ?es = "[(''en-Emma_female.wav'', File 96044 None), (''zh-Li_bgm.MP3'', File 2048 None),
              (''notes.txt'', File 12 None), (''en-Bob_male.wav'', File 1023 None),
              (''en-x'', Dir ?sub)]"
  let ?w2 = "print_line (ProcessingAudio ''voice.wav'') example_world_sub"
  have t: "os_path_join ''demo/voices'' (voice_filename ''en'' ''x/y'' ''female'') =
      ''demo/voices/en-x/y_female.wav''"
    by (simp add: os_path_join_def voice_filename_def)
  have mk: "os_makedirs example_world_sub ''demo/voices'' = Inr example_world_sub"
    by (simp add: os_makedirs_def resolve_def path_components_def example_world_sub_def)
  obtain w3 where w3: "sf_write ?w2 ''demo/voices/en-x/y_female.wav'' ?n 24000 = Inr w3"
    and n1: "node_at w3 ''demo/voices'' = Some (Dir ?es)"
    and n2: "node_at w3 ''demo/voices/en-x'' = Some (Dir ?sub)"
    by (simp add: sf_write_def print_line_def resolve_def path_components_def
        example_world_sub_def node_at_def wav_bytes_def)
  let ?w' = "print_line (SpeakerNameForScripts ''x/y'')
               (print_line (VoiceAdded ''demo/voices/en-x/y_female.wav'') w3)"
  have run: "add_voice_to_vibevoice example_lib ''voice.wav'' ''x/y'' ''en'' ''female''
      ''demo/voices'' example_world_sub = (?w', Inr ''demo/voices/en-x/y_female.wav'')"
    by (simp add: add_voice_to_vibevoice_def mk load_voice_wav trim_example
        peak_normalize_voice_wav t w3 Let_def)
  have m1: "node_at ?w' ''demo/voices'' = Some (Dir ?es)" using n1 by simp
  have m2: "node_at ?w' ''demo/voices/en-x'' = Some (Dir ?sub)" using n2 by simp
  have v1: "list_all valid_name (map fst ?es)" by (simp add: valid_name_def)
  have v2: "list_all valid_name (map fst ?sub)" by (simp add: valid_name_def)
  from lister_on_dir[OF m1 v1] obtain w'' where
    l1: "list_available_voices ''demo/voices'' ?w' =
       (w'', Inr (map (\<lambda>f. voice_entry f (entry_size ?es f))
                    (sort (filter is_voice_file (map fst ?es)))))"
    by blast
  from lister_on_dir[OF m2 v2] obtain w''' where
    l2: "list_available_voices ''demo/voices/en-x'' ?w' =
       (w''', Inr (map (\<lambda>f. voice_entry f (entry_size ?sub f))
                    (sort (filter is_voice_file (map fst ?sub)))))"
    by blast
  have s1: "sort (filter is_voice_file (map fst ?es)) =
      [''en-Bob_male.wav'', ''en-Emma_female.wav'', ''zh-Li_bgm.MP3'']"
    using filter_example_sub(1) sort_example by simp
  have s2: "sort (filter is_voice_file (map fst ?sub)) = [''y_female.wav'']"
    using filter_example_sub(2) by simp
  have r1: "map speaker_name (map (\<lambda>f. voice_entry f (entry_size ?es f))
      (sort (filter is_voice_file (map fst ?es)))) = [''Bob'', ''Emma'', ''Li'']"
    unfolding s1 by (simp add: speaker_names_example)
  have r2: "map speaker_name (map (\<lambda>f. voice_entry f (entry_size ?sub f))
      (sort (filter is_voice_file (map fst ?sub)))) = [''y'']"
    unfolding s2 by (simp add: speaker_names_example)
  have c: "CHR ''_'' \<notin> set ''x/y'' \<and> CHR ''-'' \<notin> set ''x/y''" by simp
  have "\<exists>w' w'' w''' infos infos'.
      add_voice_to_vibevoice example_lib ''voice.wav'' ''x/y'' ''en'' ''female'' ''demo/voices''
        example_world_sub = (w', Inr ''demo/voices/en-x/y_female.wav'') \<and>
      list_available_voices ''demo/voices'' w' = (w'', Inr infos) \<and>
      map speaker_name infos = [''Bob'', ''Emma'', ''Li''] \<and>
      list_available_voices ''demo/voices/en-x'' w' = (w''', Inr infos') \<and>
      map speaker_name infos' = [''y'']"
    by (intro exI conjI) (rule run, rule l1, rule r1, rule l2, rule r2)
  with c show ?thesis by (intro conjI) simp_all
qed

section \<open>What the validator returns\<close>

lemma validate_body_loaded:
  assumes "librosa_load lib audio_path None True = Inr (audio, sr)" "sr \<noteq> 0"
  shows "validate_body lib audio_path w =
     (w\<lparr>stdout := stdout w @
         [ValidationOf audio_path,
          Duration (real (len audio) / real sr),
          SampleRate sr,
          Channels (if ndim audio = 1 then ''Mono'' else ''Stereo''),
          (if real (len audio) / real sr < 2 then WarnVeryShort
           else if real (len audio) / real sr > 30 then WarnVeryLong
           else DurationLooksGood),
          (if sr \<noteq> 24000 then WillBeResampled sr else SampleRateOptimal)]\<rparr>,
      Inr True)"
  using assms by (simp add: validate_body_def Let_def print_line_def)

lemma validate_loaded:
  assumes "librosa_load lib audio_path None True = Inr (audio, sr)" "sr \<noteq> 0"
  shows "validate_voice_file lib audio_path w =
     (w\<lparr>stdout := stdout w @
         [ValidationOf audio_path,
          Duration (real (len audio) / real sr),
          SampleRate sr,
          Channels (if ndim audio = 1 then ''Mono'' else ''Stereo''),
          (if real (len audio) / real sr < 2 then WarnVeryShort
           else if real (len audio) / real sr > 30 then WarnVeryLong
           else DurationLooksGood),
          (if sr \<noteq> 24000 then WillBeResampled sr else SampleRateOptimal)]\<rparr>,
      Inr True)"
  by (simp add: validate_voice_file_def validate_body_loaded[OF assms])








lemma load_stereo_wav:
  "librosa_load example_lib ''stereo.wav'' None True = Inr (Array1 [1/2, 1/2, 1/2], 44100)"
  by (simp add: example_lib_def librosa_load_def)



section \<open>The channel layout the validator reports\<close>

lemma validator_never_stereo:
  "librosa_load lib audio_path None True = Inr (audio, sr) \<Longrightarrow> ndim audio = 1"
  using librosa_load_mono_1d by fastforce

text \<open>
  Claim C5.  On a two-channel file the validator reports \<open>Mono\<close>: the call of line 150
  leaves \<open>mono\<close> at its default, so the array that reaches line 156 is already averaged over
  the channels and one-dimensional.  The sample rate is kept (44100 here).
\<close>

theorem validator_reports_mono_for_stereo:
  "decode example_lib ''stereo.wav'' =
     Inr \<lparr>frames = Array2 [[1, 0], [0, 1], [1/2, 1/2]], sr_native = 44100\<rparr> \<and>
   validate_voice_file example_lib ''stereo.wav'' example_world =
     (example_world\<lparr>stdout :=
         [ValidationOf ''stereo.wav'', Duration (3 / 44100), SampleRate 44100, Channels ''Mono'',
          WarnVeryShort, WillBeResampled 44100]\<rparr>,
      Inr True)"
proof -
  have d: "decode example_lib ''stereo.wav'' =
     Inr \<lparr>frames = Array2 [[1, 0], [0, 1], [1/2, 1/2]], sr_native = 44100\<rparr>"
    by (simp add: example_lib_def)
  have z: "(44100::nat) \<noteq> 0" by simp
  have "stdout example_world = []" by (simp add: example_world_def)
  then have "validate_voice_file example_lib ''stereo.wav'' example_world =
     (example_world\<lparr>stdout :=
         [ValidationOf ''stereo.wav'', Duration (3 / 44100), SampleRate 44100, Channels ''Mono'',
          WarnVeryShort, WillBeResampled 44100]\<rparr>,
      Inr True)"
    unfolding validate_loaded[OF load_stereo_wav z] by simp
  with d show ?thesis by blast
qed

end
